theory Spec2Isabelle
  imports Complex_Main
begin

section \<open>Literal normalizer: \<open>processStringReverse\<close> (de.js 138-161)\<close>

text \<open>
  JavaScript strings are sequences of code units; they are modelled as \<open>string\<close>.
  The source applies the global regular expression
  \<^verbatim>\<open>/"([^"]*)"\.split\(""\)\.reverse\(\)\.join\(""\)/g\<close>
  with a replacement callback that returns the captured group reversed, between
  double quotes.
\<close>

definition dq :: char where
  "dq = CHR 0x22"

text \<open>The literal tail of the pattern: \<^verbatim>\<open>.split("").reverse().join("")\<close>.\<close>

definition idiom_tail :: string where
  "idiom_tail = ''.split('' @ [dq, dq] @ '').reverse().join('' @ [dq, dq] @ '')''"

text \<open>
  One attempt of the regular expression at the head of \<open>s\<close>. The group \<^verbatim>\<open>[^"]*\<close>
  is greedy and must be followed by a double quote, so it can only be the whole run of
  characters up to the next double quote. The result is the captured group and the text
  after the match.
\<close>

definition match_here :: "string \<Rightarrow> (string \<times> string) option" where
  "match_here s =
     (case s of
        [] \<Rightarrow> None
      | c # cs \<Rightarrow>
          if c \<noteq> dq then None
          else (case dropWhile (\<lambda>x. x \<noteq> dq) cs of
                  [] \<Rightarrow> None
                | q # after \<Rightarrow>
                    if take (length idiom_tail) after = idiom_tail
                    then Some (takeWhile (\<lambda>x. x \<noteq> dq) cs, drop (length idiom_tail) after)
                    else None))"

lemma match_here_shorter:
  "match_here s = Some (g, r) \<Longrightarrow> length r < length s"
  unfolding match_here_def
  apply (auto split: list.splits if_splits)
  subgoal for cs q after
    using length_dropWhile_le [of "\<lambda>x. x \<noteq> dq" cs] by simp
  done

text \<open>
  \<^verbatim>\<open>code.replace(pattern, callback)\<close> with the \<open>g\<close> flag: the leftmost match is
  replaced, the scan resumes right after it; where no match starts, the character is
  copied. \<^verbatim>\<open>originalString.split('').reverse().join('')\<close> is \<open>rev\<close>.
\<close>

function replace_all :: "string \<Rightarrow> string" where
  "replace_all [] = []"
| "replace_all (c # cs) =
     (case match_here (c # cs) of
        Some (g, rest) \<Rightarrow> dq # rev g @ dq # replace_all rest
      | None \<Rightarrow> c # replace_all cs)"
  by pat_completeness auto
termination
  by (relation "measure length") (auto dest: match_here_shorter)

definition processStringReverse :: "string \<Rightarrow> string" where
  "processStringReverse code = replace_all code"


text \<open>
  \<open>preprocessCode\<close> (de.js 168-185) wraps the normalizer in a handler that returns the
  input. The normalizer is a total function on strings and raises nothing, so the
  protected block always yields \<open>Inr\<close>.
\<close>

datatype js_error = SyntaxError | TypeError | ReferenceError | Error

definition preprocess_try :: "string \<Rightarrow> js_error + string" where
  "preprocess_try code = Inr (processStringReverse code)"

definition preprocessCode :: "string \<Rightarrow> string" where
  "preprocessCode code =
     (case preprocess_try code of Inl error \<Rightarrow> code | Inr processedCode \<Rightarrow> processedCode)"


section \<open>Values and syntax trees\<close>

text \<open>
  Run-time values as far as the program distinguishes them by \<^verbatim>\<open>typeof\<close>: strings,
  numbers, booleans, \<^verbatim>\<open>null\<close>, \<^verbatim>\<open>undefined\<close>, and everything else (\<open>VObject\<close>).
  Numbers are modelled as reals; no function of the program computes with them beyond
  negating a literal.
\<close>

datatype jsval = VString string | VNumber real | VBoolean bool | VNull | VUndefined | VObject

text \<open>
  The syntax tree of the Babel parser, with one constructor for each node type the program
  inspects; the arguments are the node's children in the order the traversal visits them.
  \<open>Other ty cs\<close> is a node of any other type \<open>ty\<close> with children \<open>cs\<close>
  (\<^verbatim>\<open>File\<close>, \<^verbatim>\<open>Program\<close>, \<^verbatim>\<open>BlockStatement\<close>, \<^verbatim>\<open>VariableDeclaration\<close>,
  \<^verbatim>\<open>ReturnStatement\<close>, \<^verbatim>\<open>BinaryExpression\<close>, ...). The parser returns a \<^verbatim>\<open>File\<close> whose
  first child is the \<^verbatim>\<open>Program\<close>, whose children are the statements.
\<close>

datatype node =
    Identifier string
  | StringLiteral string
  | NumericLiteral real
  | BooleanLiteral bool
  | NullLiteral
  | UnaryExpression string node
  | MemberExpression node node
  | CallExpression node "node list"
  | FunctionExpression "node option" "node list" node
  | FunctionDeclaration "node option" "node list" node
  | VariableDeclarator node "node option"
  | ObjectProperty node node
  | ArrayExpression "node option list"
  | AssignmentExpression node node
  | ExpressionStatement node
  | DoWhileStatement node node
  | TryStatement node "node option" "node option"
  | ExportNamedDeclaration "node option" "node list"
  | ExportDefaultDeclaration node
  | Other string "node list"

fun opt_list :: "'a option \<Rightarrow> 'a list" where
  "opt_list None = []"
| "opt_list (Some x) = [x]"

fun children :: "node \<Rightarrow> node list" where
  "children (UnaryExpression operator argument) = [argument]"
| "children (MemberExpression object property) = [object, property]"
| "children (CallExpression callee arguments) = callee # arguments"
| "children (FunctionExpression fid params body) = opt_list fid @ params @ [body]"
| "children (FunctionDeclaration fid params body) = opt_list fid @ params @ [body]"
| "children (VariableDeclarator vid init) = vid # opt_list init"
| "children (ObjectProperty key val) = [key, val]"
| "children (ArrayExpression elements) = concat (map opt_list elements)"
| "children (AssignmentExpression left right) = [left, right]"
| "children (ExpressionStatement expression) = [expression]"
| "children (DoWhileStatement body test) = [body, test]"
| "children (TryStatement block handler finalizer) =
     block # opt_list handler @ opt_list finalizer"
| "children (ExportNamedDeclaration declaration rest) = opt_list declaration @ rest"
| "children (ExportDefaultDeclaration declaration) = [declaration]"
| "children (Other ty cs) = cs"
| "children n = []"

fun map_children :: "(node \<Rightarrow> node) \<Rightarrow> node \<Rightarrow> node" where
  "map_children f (UnaryExpression operator argument) = UnaryExpression operator (f argument)"
| "map_children f (MemberExpression object property) = MemberExpression (f object) (f property)"
| "map_children f (CallExpression callee arguments) = CallExpression (f callee) (map f arguments)"
| "map_children f (FunctionExpression fid params body) =
     FunctionExpression (map_option f fid) (map f params) (f body)"
| "map_children f (FunctionDeclaration fid params body) =
     FunctionDeclaration (map_option f fid) (map f params) (f body)"
| "map_children f (VariableDeclarator vid init) = VariableDeclarator (f vid) (map_option f init)"
| "map_children f (ObjectProperty key val) = ObjectProperty (f key) (f val)"
| "map_children f (ArrayExpression elements) = ArrayExpression (map (map_option f) elements)"
| "map_children f (AssignmentExpression left right) = AssignmentExpression (f left) (f right)"
| "map_children f (ExpressionStatement expression) = ExpressionStatement (f expression)"
| "map_children f (DoWhileStatement body test) = DoWhileStatement (f body) (f test)"
| "map_children f (TryStatement block handler finalizer) =
     TryStatement (f block) (map_option f handler) (map_option f finalizer)"
| "map_children f (ExportNamedDeclaration declaration rest) =
     ExportNamedDeclaration (map_option f declaration) (map f rest)"
| "map_children f (ExportDefaultDeclaration declaration) = ExportDefaultDeclaration (f declaration)"
| "map_children f (Other ty cs) = Other ty (map f cs)"
| "map_children f n = n"

lemma set_opt_list [simp]: "set (opt_list x) = set_option x"
  by (cases x) simp_all

lemma size_opt_list: "c \<in> set_option x \<Longrightarrow> size c < Suc (size_option size x)"
  by (cases x) auto

lemma size_node_list: "c \<in> set cs \<Longrightarrow> size (c::node) < Suc (size_list size cs)"
  by (induction cs) auto

lemma size_node_option_list:
  "x \<in> set es \<Longrightarrow> c \<in> set_option x \<Longrightarrow> size (c::node) < Suc (size_list (size_option size) es)"
  by (induction es) (auto dest: size_opt_list)

lemma children_smaller: "c \<in> set (children n) \<Longrightarrow> size c < size n"
  by (cases n) (auto dest: size_opt_list size_node_list size_node_option_list)

lemma map_children_cong [fundef_cong]:
  "n = m \<Longrightarrow> (\<And>c. c \<in> set (children m) \<Longrightarrow> f c = g c) \<Longrightarrow> map_children f n = map_children g m"
  by (cases m) (fastforce intro!: option.map_cong map_cong)+

text \<open>
  A traversal path: the node and its ancestors, nearest first (the \<^verbatim>\<open>parentPath\<close>
  chain). \<open>subpaths\<close> lists a node and its descendants in the depth-first order in which
  the traversal enters them. \<^verbatim>\<open>traverse(ast, visitors)\<close> visits the descendants of its
  root, and the root is not part of any parent chain.
\<close>

type_synonym path = "node \<times> node list"

function subpaths :: "node list \<Rightarrow> node \<Rightarrow> path list" where
  "subpaths anc n = (n, anc) # concat (map (subpaths (n # anc)) (children n))"
  by pat_completeness auto
termination
  by (relation "measure (\<lambda>(anc, n). size n)") (auto dest: children_smaller)

definition traverse :: "node \<Rightarrow> path list" where
  "traverse ast = concat (map (subpaths []) (children ast))"

text \<open>
  A traversal whose visitor may call \<^verbatim>\<open>path.replaceWith(r)\<close>: the visitor runs when the
  node is entered; a replaced node is not descended into (the program's replacements are
  literals and identifiers, on which its visitors do nothing), any other node has its
  children traversed. \<open>replaced_paths\<close> lists the paths at which the visitor replaced.
\<close>

function replace_nodes :: "(node \<Rightarrow> node option) \<Rightarrow> node \<Rightarrow> node" where
  "replace_nodes v n = (case v n of Some r \<Rightarrow> r | None \<Rightarrow> map_children (replace_nodes v) n)"
  by pat_completeness auto
termination
  by (relation "measure (\<lambda>(v, n). size n)") (auto dest: children_smaller)

function replaced_paths :: "(node \<Rightarrow> node option) \<Rightarrow> node list \<Rightarrow> node \<Rightarrow> path list" where
  "replaced_paths v anc n =
     (case v n of
        Some r \<Rightarrow> [(n, anc)]
      | None \<Rightarrow> concat (map (replaced_paths v (n # anc)) (children n)))"
  by pat_completeness auto
termination
  by (relation "measure (\<lambda>(v, anc, n). size n)") (auto dest: children_smaller)

definition traverse_replace :: "(node \<Rightarrow> node option) \<Rightarrow> node \<Rightarrow> node" where
  "traverse_replace v ast = map_children (replace_nodes v) ast"

definition traverse_replaced :: "(node \<Rightarrow> node option) \<Rightarrow> node \<Rightarrow> path list" where
  "traverse_replaced v ast = concat (map (replaced_paths v []) (children ast))"


section \<open>Configuration and library interface\<close>

text \<open>
  The fields of \<^verbatim>\<open>config\<close> (de.js 97-110) that the modelled functions read. A regular
  expression is used only through \<^verbatim>\<open>test\<close>, so it is the predicate it decides.
\<close>

datatype cleanup_mode = CleanupNone | CleanupComment | CleanupRemove

record config =
  verbose :: bool
  disableReplace :: bool
  cleanupFunctions :: cleanup_mode
  interceptPattern :: "string \<Rightarrow> bool"
  functionNamePattern :: "(string \<Rightarrow> bool) option"
  minArgs :: int
  maxArgs :: int

text \<open>
  The operations of the libraries the program calls, which are not part of its source:
  \<^item> \<open>parse\<close>: \<^verbatim>\<open>parser.parse(code, {sourceType: 'module', ...})\<close>, which throws on a
    syntax error;
  \<^item> \<open>parse_default\<close>: \<^verbatim>\<open>parser.parse(code)\<close> with the default options;
  \<^item> \<open>generate\<close>: \<^verbatim>\<open>generate(node).code\<close>, which is also \<^verbatim>\<open>path.toString()\<close>;
  \<^item> \<open>base64\<close>: \<^verbatim>\<open>Buffer.from(s).toString('base64')\<close>;
  \<^item> \<open>unscoped_traverse\<close>: the check \<^verbatim>\<open>traverse(node, visitors)\<close> makes when it is
    called without a scope on the given node; \<open>Some e\<close> when it throws;
  \<^item> \<open>splice\<close>: a traversal whose visitor removes the node it is called on (\<open>Some []\<close>,
    \<^verbatim>\<open>path.remove()\<close>) or replaces it by a list of nodes
    (\<^verbatim>\<open>path.replaceWithMultiple\<close>); it throws when the visitor or the library does.
\<close>

record lib =
  parse :: "string \<Rightarrow> js_error + node"
  parse_default :: "string \<Rightarrow> js_error + node"
  generate :: "node \<Rightarrow> string"
  base64 :: "string \<Rightarrow> string"
  unscoped_traverse :: "node \<Rightarrow> js_error option"
  splice :: "(node \<Rightarrow> js_error + node list option) \<Rightarrow> node \<Rightarrow> js_error + node"


section \<open>Name resolution and classification of calls\<close>

text \<open>\<open>shouldInterceptFunction\<close> (de.js 115-133).\<close>

definition shouldInterceptFunction :: "config \<Rightarrow> string \<Rightarrow> nat \<Rightarrow> bool" where
  "shouldInterceptFunction cfg name argsCount =
     (if (case functionNamePattern cfg of
            Some pattern \<Rightarrow> \<not> pattern name
          | None \<Rightarrow> False) then False
      else if \<not> interceptPattern cfg name then False
      else True)"


text \<open>\<open>extractFunctionName\<close> (de.js 688-709); \<open>None\<close> is \<^verbatim>\<open>null\<close>.\<close>

definition reservedKeywords :: "string list" where
  "reservedKeywords =
     [''default'', ''function'', ''var'', ''let'', ''const'', ''if'', ''else'', ''for'',
      ''while'', ''do'', ''switch'', ''case'', ''break'', ''continue'', ''return'', ''this'',
      ''typeof'', ''instanceof'', ''new'', ''delete'', ''void'', ''in'', ''try'', ''catch'',
      ''finally'', ''throw'', ''class'', ''extends'', ''super'', ''import'', ''export'',
      ''null'', ''true'', ''false'', ''undefined'', ''NaN'', ''Infinity'']"

fun extractFunctionName :: "node \<Rightarrow> string option" where
  "extractFunctionName (Identifier name) = Some name"
| "extractFunctionName (MemberExpression object (Identifier propertyName)) =
     (if propertyName \<in> set reservedKeywords then None else Some propertyName)"
| "extractFunctionName callee = None"

text \<open>
  A name used as a condition, \<^verbatim>\<open>funcName && ...\<close>: \<^verbatim>\<open>null\<close>, \<^verbatim>\<open>undefined\<close> and the
  empty string are falsy.
\<close>

fun truthy_name :: "string option \<Rightarrow> bool" where
  "truthy_name None = False"
| "truthy_name (Some name) = (name \<noteq> [])"

text \<open>\<^verbatim>\<open>node.id?.name\<close>: the name of an identifier, \<^verbatim>\<open>undefined\<close> otherwise.\<close>

fun id_name :: "node option \<Rightarrow> string option" where
  "id_name (Some (Identifier name)) = Some name"
| "id_name other = None"

text \<open>
  \<open>extractConstantArguments\<close> (de.js 479-494). The value \<^verbatim>\<open>undefined\<close> is returned both
  for the identifier \<^verbatim>\<open>undefined\<close> and for an argument that is not a constant.
\<close>

fun constant_argument :: "node \<Rightarrow> jsval" where
  "constant_argument (StringLiteral v) = VString v"
| "constant_argument (NumericLiteral v) = VNumber v"
| "constant_argument (BooleanLiteral v) = VBoolean v"
| "constant_argument NullLiteral = VNull"
| "constant_argument (Identifier name) = VUndefined"
| "constant_argument (UnaryExpression operator (NumericLiteral v)) =
     (if operator = ''-'' then VNumber (- v) else VUndefined)"
| "constant_argument other = VUndefined"

definition extractConstantArguments :: "node list \<Rightarrow> jsval list" where
  "extractConstantArguments arguments = map constant_argument arguments"

text \<open>\<open>isInitializationFunction\<close> (de.js 501-530).\<close>

fun is_iife :: "node \<Rightarrow> bool" where
  "is_iife (CallExpression (FunctionExpression fid params body) arguments) = True"
| "is_iife n = False"

fun isDoWhileStatement :: "node \<Rightarrow> bool" where
  "isDoWhileStatement (DoWhileStatement body test) = True"
| "isDoWhileStatement n = False"

fun isTryStatement :: "node \<Rightarrow> bool" where
  "isTryStatement (TryStatement block handler finalizer) = True"
| "isTryStatement n = False"

definition isInitializationFunction :: "path \<Rightarrow> bool" where
  "isInitializationFunction p =
     (if (case snd p of [] \<Rightarrow> False | parent # up \<Rightarrow> is_iife parent) then True
      else if list_ex is_iife (snd p) then True
      else if list_ex isDoWhileStatement (snd p) then True
      else if list_ex isTryStatement (snd p) then True
      else False)"


section \<open>Call-site extraction: \<open>extractActualFunctionCalls\<close> (de.js 716-885)\<close>

record call_info =
  callExpression :: string
  funcName :: string
  args :: "jsval list"
  path :: path

text \<open>
  \<^verbatim>\<open>toString()\<close> of a syntax-tree node, a plain object without a \<^verbatim>\<open>toString\<close> of its
  own; the visitors other than \<^verbatim>\<open>CallExpression\<close> call it on the node, not on the path.
\<close>

definition object_Object :: string where
  "object_Object = ''[object Object]''"

text \<open>
  The body the five visitors share, for the call at path \<open>p\<close> whose text the visitor
  computed as \<open>text\<close>.
\<close>

definition candidate :: "config \<Rightarrow> string \<Rightarrow> path \<Rightarrow> call_info list" where
  "candidate cfg text p =
     (case fst p of
        CallExpression callee arguments \<Rightarrow>
          if truthy_name (extractFunctionName callee) \<and>
             shouldInterceptFunction cfg (the (extractFunctionName callee)) (length arguments)
          then
            if isInitializationFunction p then []
            else if list_all (\<lambda>a. a \<noteq> VUndefined) (extractConstantArguments arguments)
              then [\<lparr>callExpression = text,
                     funcName = the (extractFunctionName callee),
                     args = extractConstantArguments arguments,
                     path = p\<rparr>]
              else []
          else []
      | other \<Rightarrow> [])"

definition extract_visitor :: "lib \<Rightarrow> config \<Rightarrow> path \<Rightarrow> call_info list" where
  "extract_visitor L cfg p =
     (case fst p of
        CallExpression callee arguments \<Rightarrow> candidate cfg (generate L (fst p)) p
      | ObjectProperty key val \<Rightarrow> candidate cfg object_Object (val, fst p # snd p)
      | ArrayExpression elements \<Rightarrow>
          concat (map (\<lambda>element. case element of
                         None \<Rightarrow> []
                       | Some e \<Rightarrow> candidate cfg object_Object (e, fst p # snd p)) elements)
      | AssignmentExpression left right \<Rightarrow> candidate cfg object_Object (right, fst p # snd p)
      | VariableDeclarator vid init \<Rightarrow>
          (case init of
             None \<Rightarrow> []
           | Some e \<Rightarrow> candidate cfg object_Object (e, fst p # snd p))
      | other \<Rightarrow> [])"

definition collectActualCalls :: "lib \<Rightarrow> config \<Rightarrow> node \<Rightarrow> call_info list" where
  "collectActualCalls L cfg ast = concat (map (extract_visitor L cfg) (traverse ast))"

definition extractActualFunctionCalls :: "lib \<Rightarrow> config \<Rightarrow> string \<Rightarrow> call_info list" where
  "extractActualFunctionCalls L cfg code =
     (case parse L code of
        Inl error \<Rightarrow> []
      | Inr ast \<Rightarrow> collectActualCalls L cfg ast)"


section \<open>Rewriter: \<open>applyCallExpressionReplacements\<close> (de.js 1042-1116)\<close>

type_synonym results = "string \<rightharpoonup> jsval"

definition literal_node :: "jsval \<Rightarrow> node option" where
  "literal_node result =
     (case result of
        VString s \<Rightarrow> Some (StringLiteral s)
      | VNumber x \<Rightarrow> Some (NumericLiteral x)
      | VBoolean b \<Rightarrow> Some (BooleanLiteral b)
      | VNull \<Rightarrow> Some NullLiteral
      | VUndefined \<Rightarrow> Some (Identifier ''undefined'')
      | VObject \<Rightarrow> None)"

definition replace_visitor :: "lib \<Rightarrow> config \<Rightarrow> results \<Rightarrow> node \<Rightarrow> node option" where
  "replace_visitor L cfg callExpressionMap n =
     (case n of
        CallExpression callee arguments \<Rightarrow>
          (case callee of
             Identifier name \<Rightarrow>
               if name = ''__interceptFunctionCall'' then None
               else if shouldInterceptFunction cfg name (length arguments) then
                 (case callExpressionMap (generate L n) of
                    Some result \<Rightarrow> literal_node result
                  | None \<Rightarrow> None)
               else None
           | other \<Rightarrow> None)
      | other \<Rightarrow> None)"

text \<open>The protected block of the function, and the function with its handler.\<close>

definition replacement_try :: "lib \<Rightarrow> config \<Rightarrow> string \<Rightarrow> results \<Rightarrow> js_error + string" where
  "replacement_try L cfg code callExpressionMap =
     (case parse L code of
        Inl error \<Rightarrow> Inl error
      | Inr ast \<Rightarrow>
          Inr (generate L (traverse_replace (replace_visitor L cfg callExpressionMap) ast)))"

definition applyCallExpressionReplacements ::
  "lib \<Rightarrow> config \<Rightarrow> string \<Rightarrow> results \<Rightarrow> string" where
  "applyCallExpressionReplacements L cfg code callExpressionMap =
     (if disableReplace cfg \<or> callExpressionMap = Map.empty then code
      else (case replacement_try L cfg code callExpressionMap of
              Inl error \<Rightarrow> code
            | Inr newCode \<Rightarrow> newCode))"


section \<open>Evaluation harness: \<open>generateFunctionTestCode\<close> (de.js 894-1032)\<close>

text \<open>
  The harness assembles a program text and hands it to \<^verbatim>\<open>vm.runInContext\<close>. What the
  interpreter does with the immediately-invoked functions and the helper definitions is
  not part of the source; it is the parameter \<open>sandbox\<close>. The context of the run holds
  the map \<^verbatim>\<open>globalResults\<close> (de.js 1624-1639), so the code of the input can read and
  write it, and every part of the run is a transformer of the content of that map:
  \<^item> \<open>literal_value s\<close>: the value of the double-quoted string literal with body \<open>s\<close>,
    \<open>None\<close> when the literal does not lex (the assembled program is then rejected);
  \<^item> \<open>startup\<close>: the outcome of running the preamble, the immediately-invoked functions and
    the helper definitions on the empty map; when it completes, the content of
    \<^verbatim>\<open>globalResults\<close> it leaves;
  \<^item> \<open>is_function i name\<close>: \<^verbatim>\<open>typeof name === 'function'\<close> when the \<open>i\<close>-th line of
    the driver is reached;
  \<^item> \<open>invoke i name args globalResults\<close>: the outcome of the helper call made by the
    \<open>i\<close>-th line of the driver, and the content of \<^verbatim>\<open>globalResults\<close> when the call ends.

  The bindings \<^verbatim>\<open>globalResults\<close>, \<^verbatim>\<open>safeCall\<close> and \<^verbatim>\<open>console\<close> of the context and the
  method \<^verbatim>\<open>Map.prototype.set\<close> are taken to be the ones the harness installed.
\<close>

datatype call_outcome = Returns jsval | Throws | ThrowsNullish | Loops

datatype startup_outcome = StartupCompletes results | StartupThrows | StartupLoops

record sandbox =
  literal_value :: "string \<Rightarrow> string option"
  startup :: startup_outcome
  is_function :: "nat \<Rightarrow> string \<Rightarrow> bool"
  invoke :: "nat \<Rightarrow> string \<Rightarrow> jsval list \<Rightarrow> results \<Rightarrow> call_outcome \<times> results"

definition bs :: char where
  "bs = CHR 0x5C"

text \<open>\<^verbatim>\<open>call.callExpression.replace(/"/g, '\\"')\<close> (de.js 989).\<close>

definition escape_quotes :: "string \<Rightarrow> string" where
  "escape_quotes s = concat (map (\<lambda>c. if c = dq then [bs, dq] else [c]) s)"

text \<open>
  \<open>safeCall\<close> (de.js 901-949). The parameter \<open>func\<close> is \<^verbatim>\<open>func(...args)\<close>, run on the
  current content of \<^verbatim>\<open>globalResults\<close>: a returned value is stored under \<open>callStr\<close> in
  the map as the call left it; a thrown error is logged and \<^verbatim>\<open>false\<close> is returned; when
  the thrown value is \<^verbatim>\<open>null\<close> or \<^verbatim>\<open>undefined\<close>, reading \<^verbatim>\<open>e.message\<close> in the
  handler throws in turn; a call that loops does not return.
\<close>

datatype safe_call_result = Finished bool | HandlerThrew | NeverReturns

definition safeCall ::
  "(results \<Rightarrow> call_outcome \<times> results) \<Rightarrow> string \<Rightarrow> results \<Rightarrow> safe_call_result \<times> results"
where
  "safeCall func callStr globalResults =
     (case func globalResults of
        (Returns result, globalResults') \<Rightarrow> (Finished True, globalResults'(callStr \<mapsto> result))
      | (Throws, globalResults') \<Rightarrow> (Finished False, globalResults')
      | (ThrowsNullish, globalResults') \<Rightarrow> (HandlerThrew, globalResults')
      | (Loops, globalResults') \<Rightarrow> (NeverReturns, globalResults'))"

text \<open>
  \<open>testActualCalls\<close> (de.js 983-1010), one line per entry of \<open>actualCalls\<close>, each with
  the value of its key literal. An error that escapes \<open>safeCall\<close> ends the driver and is
  caught by the handler around it (de.js 1017-1028). The result is the final
  \<^verbatim>\<open>globalResults\<close>, or \<open>None\<close> when the driver does not return.
\<close>

fun testActualCalls ::
  "sandbox \<Rightarrow> nat \<Rightarrow> (string \<times> call_info) list \<Rightarrow> results \<Rightarrow> results option" where
  "testActualCalls sb i [] globalResults = Some globalResults"
| "testActualCalls sb i ((callStr, call) # rest) globalResults =
     (if is_function sb i (funcName call) then
        (case safeCall (invoke sb i (funcName call) (args call)) callStr globalResults of
           (Finished ok, globalResults') \<Rightarrow> testActualCalls sb (Suc i) rest globalResults'
         | (HandlerThrew, globalResults') \<Rightarrow> Some globalResults'
         | (NeverReturns, globalResults') \<Rightarrow> None)
      else testActualCalls sb (Suc i) rest globalResults)"

definition driver_key :: "sandbox \<Rightarrow> call_info \<Rightarrow> string option" where
  "driver_key sb call = literal_value sb (escape_quotes (callExpression call))"

text \<open>
  \<^verbatim>\<open>vm.runInContext(testCode, context)\<close> as the program calls it, with no timeout option:
  \<open>None\<close> when the call does not return, \<open>Some (Inl e)\<close> when it throws, and
  \<open>Some (Inr m)\<close> when it returns with \<^verbatim>\<open>globalResults\<close> equal to \<open>m\<close>.
\<close>

definition runInContext :: "sandbox \<Rightarrow> call_info list \<Rightarrow> (js_error + results) option" where
  "runInContext sb actualCalls =
     (if list_ex (\<lambda>call. driver_key sb call = None) actualCalls then Some (Inl SyntaxError)
      else (case startup sb of
              StartupThrows \<Rightarrow> Some (Inl Error)
            | StartupLoops \<Rightarrow> None
            | StartupCompletes globalResults \<Rightarrow>
                map_option Inr
                  (testActualCalls sb 0
                     (map (\<lambda>call. (the (driver_key sb call), call)) actualCalls)
                     globalResults)))"

text \<open>
  Step 5 of \<open>processWithNewStrategy\<close> (de.js 1641-1683). The callback registered with
  \<^verbatim>\<open>setTimeout\<close> before the call can only run once the synchronous call has returned,
  and the timer is cleared right after the call, so it has no part in the result.
  \<open>None\<close>: the step does not return; \<open>Some None\<close>: the handler returns \<^verbatim>\<open>null\<close> from
  \<open>processWithNewStrategy\<close>; \<open>Some (Some m)\<close>: \<^verbatim>\<open>callExpressionMap\<close> is \<open>m\<close>.
\<close>

definition run_test_code :: "sandbox \<Rightarrow> call_info list \<Rightarrow> results option option" where
  "run_test_code sb actualCalls =
     (case runInContext sb actualCalls of
        None \<Rightarrow> None
      | Some (Inl error) \<Rightarrow> Some None
      | Some (Inr globalResults) \<Rightarrow> Some (Some globalResults))"


section \<open>Cleanup analysis: \<open>analyzeFunctionsForCleanup\<close> (de.js 1125-1279)\<close>

record cleanup_data =
  functionsToCleanup :: "string list"
  immediateFunctionsToCleanup :: "string list"

text \<open>\<^verbatim>\<open>Set.add\<close> on a set kept as the list of its elements in insertion order.\<close>

definition add_name :: "string \<Rightarrow> string list \<Rightarrow> string list" where
  "add_name name names = (if name \<in> set names then names else names @ [name])"

text \<open>
  First traversal (de.js 1142-1153): the exported function declarations.
  \<^verbatim>\<open>path.node.declaration.id.name\<close> throws when the declaration has no \<^verbatim>\<open>id\<close>.
\<close>

fun exported_name :: "node option \<Rightarrow> js_error + string list" where
  "exported_name (Some (FunctionDeclaration (Some (Identifier name)) params body)) = Inr [name]"
| "exported_name (Some (FunctionDeclaration None params body)) = Inl TypeError"
| "exported_name declaration = Inr []"

definition export_visitor :: "node \<Rightarrow> js_error + string list" where
  "export_visitor n =
     (case n of
        ExportNamedDeclaration declaration rest \<Rightarrow> exported_name declaration
      | ExportDefaultDeclaration declaration \<Rightarrow> exported_name (Some declaration)
      | other \<Rightarrow> Inr [])"

fun collect_exported :: "node list \<Rightarrow> js_error + string list" where
  "collect_exported [] = Inr []"
| "collect_exported (n # ns) =
     (case export_visitor n of
        Inl error \<Rightarrow> Inl error
      | Inr names \<Rightarrow>
          (case collect_exported ns of
             Inl error \<Rightarrow> Inl error
           | Inr others \<Rightarrow> Inr (names @ others)))"

definition exportedFunctions :: "node \<Rightarrow> js_error + string list" where
  "exportedFunctions ast = collect_exported (map fst (traverse ast))"

text \<open>
  Second traversal (de.js 1156-1181): the state is \<^verbatim>\<open>allFunctions\<close> and
  \<^verbatim>\<open>functionReferences\<close> (read with \<^verbatim>\<open>|| 0\<close>). The three visitors run in one traversal:
  a call is counted only if its name is already in \<^verbatim>\<open>allFunctions\<close> when it is visited,
  and visiting a definition resets the count of its name.
\<close>

type_synonym reference_state = "string list \<times> (string \<Rightarrow> nat)"

definition register_function :: "config \<Rightarrow> string option \<Rightarrow> reference_state \<Rightarrow> reference_state" where
  "register_function cfg name st =
     (if truthy_name name \<and> interceptPattern cfg (the name)
      then (add_name (the name) (fst st), (snd st)(the name := 0))
      else st)"

definition count_visitor :: "config \<Rightarrow> reference_state \<Rightarrow> node \<Rightarrow> reference_state" where
  "count_visitor cfg st n =
     (case n of
        FunctionDeclaration fid params body \<Rightarrow> register_function cfg (id_name fid) st
      | VariableDeclarator vid init \<Rightarrow>
          (case init of
             Some (FunctionExpression fid params body) \<Rightarrow>
               register_function cfg (id_name (Some vid)) st
           | other \<Rightarrow> st)
      | CallExpression callee arguments \<Rightarrow>
          if truthy_name (extractFunctionName callee) \<and>
             the (extractFunctionName callee) \<in> set (fst st)
          then (fst st,
                (snd st)(the (extractFunctionName callee) :=
                           snd st (the (extractFunctionName callee)) + 1))
          else st
      | other \<Rightarrow> st)"

definition count_references :: "config \<Rightarrow> node \<Rightarrow> reference_state" where
  "count_references cfg ast =
     foldl (count_visitor cfg) ([], \<lambda>name. 0) (map fst (traverse ast))"

text \<open>The loop over \<^verbatim>\<open>allFunctions\<close> (de.js 1184-1206).\<close>

definition functions_to_cleanup ::
  "string list \<Rightarrow> string list \<Rightarrow> (string \<Rightarrow> nat) \<Rightarrow> call_info list \<Rightarrow> string list" where
  "functions_to_cleanup allFunctions exported functionReferences actualCalls =
     filter
       (\<lambda>name.
          name \<notin> set exported \<and>
          list_ex (\<lambda>call. funcName call = name) actualCalls \<and>
          functionReferences name \<le> length (filter (\<lambda>call. funcName call = name) actualCalls))
       allFunctions"

text \<open>
  Third traversal (de.js 1213-1250), over the statements that are a call of a function
  expression. The inner \<^verbatim>\<open>traverse\<close> is called on the function expression without a scope,
  so the library's check comes first; when it throws, the keys added so far remain.
\<close>

definition immediate_key :: "lib \<Rightarrow> node \<Rightarrow> string" where
  "immediate_key L n = ''immediate_'' @ take 10 (base64 L (generate L n))"

definition has_unreplaced_calls :: "lib \<Rightarrow> config \<Rightarrow> results \<Rightarrow> node \<Rightarrow> bool" where
  "has_unreplaced_calls L cfg callExpressionMap callee =
     list_ex
       (\<lambda>p. case fst p of
               CallExpression c arguments \<Rightarrow>
                 truthy_name (extractFunctionName c) \<and>
                 interceptPattern cfg (the (extractFunctionName c)) \<and>
                 callExpressionMap (generate L (fst p)) = None
             | other \<Rightarrow> False)
       (traverse callee)"

fun immediate_analysis ::
  "lib \<Rightarrow> config \<Rightarrow> results \<Rightarrow> node list \<Rightarrow> string list \<Rightarrow> (js_error \<times> string list) + string list"
where
  "immediate_analysis L cfg R [] found = Inr found"
| "immediate_analysis L cfg R (n # ns) found =
     (case n of
        ExpressionStatement (CallExpression (FunctionExpression fid params body) arguments) \<Rightarrow>
          (case unscoped_traverse L (FunctionExpression fid params body) of
             Some error \<Rightarrow> Inl (error, found)
           | None \<Rightarrow>
               immediate_analysis L cfg R ns
                 (if has_unreplaced_calls L cfg R (FunctionExpression fid params body)
                  then found
                  else add_name (immediate_key L n) found))
      | other \<Rightarrow> immediate_analysis L cfg R ns found)"

text \<open>
  The branch at de.js 1252-1267. Its condition is the identifier
  \<^verbatim>\<open>shouldCleanupImmediateFunctions\<close>, which is declared nowhere in the program, so
  evaluating it throws a \<^verbatim>\<open>ReferenceError\<close>. Its body would add the key of every
  immediately-invoked statement.
\<close>

definition shouldCleanupImmediateFunctions :: "js_error + bool" where
  "shouldCleanupImmediateFunctions = Inl ReferenceError"

fun cleanup_all_immediate :: "lib \<Rightarrow> node list \<Rightarrow> string list \<Rightarrow> string list" where
  "cleanup_all_immediate L [] found = found"
| "cleanup_all_immediate L (n # ns) found =
     (case n of
        ExpressionStatement (CallExpression (FunctionExpression fid params body) arguments) \<Rightarrow>
          cleanup_all_immediate L ns (add_name (immediate_key L n) found)
      | other \<Rightarrow> cleanup_all_immediate L ns found)"

text \<open>
  The protected block: \<open>Inl (e, data)\<close> when it ends by throwing \<open>e\<close> with the two sets
  equal to \<open>data\<close> at that moment, \<open>Inr data\<close> when it runs to its end. The handler only
  logs, and the function returns the two sets.
\<close>

definition analysis_body ::
  "lib \<Rightarrow> config \<Rightarrow> string \<Rightarrow> results \<Rightarrow> call_info list \<Rightarrow> (js_error \<times> cleanup_data) + cleanup_data"
where
  "analysis_body L cfg code callExpressionMap actualCalls =
     (case parse L code of
        Inl error \<Rightarrow> Inl (error, \<lparr>functionsToCleanup = [], immediateFunctionsToCleanup = []\<rparr>)
      | Inr ast \<Rightarrow>
          (case exportedFunctions ast of
             Inl error \<Rightarrow> Inl (error, \<lparr>functionsToCleanup = [], immediateFunctionsToCleanup = []\<rparr>)
           | Inr exported \<Rightarrow>
               (case immediate_analysis L cfg callExpressionMap (map fst (traverse ast)) [] of
                  Inl (error, found) \<Rightarrow>
                    Inl (error,
                         \<lparr>functionsToCleanup =
                            functions_to_cleanup (fst (count_references cfg ast)) exported
                              (snd (count_references cfg ast)) actualCalls,
                          immediateFunctionsToCleanup = found\<rparr>)
                | Inr found \<Rightarrow>
                    (case shouldCleanupImmediateFunctions of
                       Inl error \<Rightarrow>
                         Inl (error,
                              \<lparr>functionsToCleanup =
                                 functions_to_cleanup (fst (count_references cfg ast)) exported
                                   (snd (count_references cfg ast)) actualCalls,
                               immediateFunctionsToCleanup = found\<rparr>)
                     | Inr guard \<Rightarrow>
                         Inr \<lparr>functionsToCleanup =
                                functions_to_cleanup (fst (count_references cfg ast)) exported
                                  (snd (count_references cfg ast)) actualCalls,
                              immediateFunctionsToCleanup =
                                (if guard
                                 then cleanup_all_immediate L (map fst (traverse ast)) found
                                 else found)\<rparr>))))"

definition analyzeFunctionsForCleanup ::
  "lib \<Rightarrow> config \<Rightarrow> string \<Rightarrow> results \<Rightarrow> call_info list \<Rightarrow> cleanup_data" where
  "analyzeFunctionsForCleanup L cfg code callExpressionMap actualCalls =
     (case analysis_body L cfg code callExpressionMap actualCalls of
        Inl (error, cleanupData) \<Rightarrow> cleanupData
      | Inr cleanupData \<Rightarrow> cleanupData)"


section \<open>Cleanup: \<open>cleanupDecryptedFunctions\<close> (de.js 1288-1408)\<close>

text \<open>
  The labels of the comments, as the bytes of the source file, and the two replacements
  that keep the commented code from ending the comment:
  \<^verbatim>\<open>.replace(/\/\*/g, '/\\*').replace(/\*\//g, '*\\/')\<close>.
\<close>

definition label_function :: string where
  "label_function =
     [CHR 0x5B, CHR 0xE8, CHR 0xA7, CHR 0xA3, CHR 0xE5, CHR 0xAF, CHR 0x86, CHR 0xE6, CHR 0xB8,
      CHR 0x85, CHR 0xE7, CHR 0x90, CHR 0x86, CHR 0x5D, CHR 0x20, CHR 0xE5, CHR 0xB7, CHR 0xB2,
      CHR 0xE8, CHR 0xA7, CHR 0xA3, CHR 0xE5, CHR 0xAF, CHR 0x86, CHR 0xE7, CHR 0x9A, CHR 0x84,
      CHR 0xE5, CHR 0x87, CHR 0xBD, CHR 0xE6, CHR 0x95, CHR 0xB0, CHR 0x3A, CHR 0x20]"

definition label_function_expression :: string where
  "label_function_expression =
     [CHR 0x5B, CHR 0xE8, CHR 0xA7, CHR 0xA3, CHR 0xE5, CHR 0xAF, CHR 0x86, CHR 0xE6, CHR 0xB8,
      CHR 0x85, CHR 0xE7, CHR 0x90, CHR 0x86, CHR 0x5D, CHR 0x20, CHR 0xE5, CHR 0xB7, CHR 0xB2,
      CHR 0xE8, CHR 0xA7, CHR 0xA3, CHR 0xE5, CHR 0xAF, CHR 0x86, CHR 0xE7, CHR 0x9A, CHR 0x84,
      CHR 0xE5, CHR 0x87, CHR 0xBD, CHR 0xE6, CHR 0x95, CHR 0xB0, CHR 0xE8, CHR 0xA1, CHR 0xA8,
      CHR 0xE8, CHR 0xBE, CHR 0xBE, CHR 0xE5, CHR 0xBC, CHR 0x8F, CHR 0x3A, CHR 0x20]"

definition label_immediate :: string where
  "label_immediate =
     [CHR 0x5B, CHR 0xE8, CHR 0xA7, CHR 0xA3, CHR 0xE5, CHR 0xAF, CHR 0x86, CHR 0xE6, CHR 0xB8,
      CHR 0x85, CHR 0xE7, CHR 0x90, CHR 0x86, CHR 0x5D, CHR 0x20, CHR 0xE5, CHR 0x88, CHR 0x9D,
      CHR 0xE5, CHR 0xA7, CHR 0x8B, CHR 0xE5, CHR 0x8C, CHR 0x96, CHR 0xE5, CHR 0x87, CHR 0xBD,
      CHR 0xE6, CHR 0x95, CHR 0xB0, CHR 0xEF, CHR 0xBC, CHR 0x88, CHR 0xE5, CHR 0xB7, CHR 0xB2,
      CHR 0xE5, CHR 0xAE, CHR 0x8C, CHR 0xE6, CHR 0x88, CHR 0x90, CHR 0xE8, CHR 0xA7, CHR 0xA3,
      CHR 0xE5, CHR 0xAF, CHR 0x86, CHR 0xEF, CHR 0xBC, CHR 0x89]"

fun escape_comment_open :: "string \<Rightarrow> string" where
  "escape_comment_open (a # b # s) =
     (if a = CHR ''/'' \<and> b = CHR ''*''
      then [CHR ''/'', bs, CHR ''*''] @ escape_comment_open s
      else a # escape_comment_open (b # s))"
| "escape_comment_open s = s"

fun escape_comment_close :: "string \<Rightarrow> string" where
  "escape_comment_close (a # b # s) =
     (if a = CHR ''*'' \<and> b = CHR ''/''
      then [CHR ''*'', bs, CHR ''/''] @ escape_comment_close s
      else a # escape_comment_close (b # s))"
| "escape_comment_close s = s"

definition commentedCode :: "string \<Rightarrow> string \<Rightarrow> string" where
  "commentedCode label code =
     ''/* '' @ label @ '' */'' @ [CHR 0x0A] @ ''/*'' @
       escape_comment_close (escape_comment_open code) @ ''*/''"

text \<open>\<^verbatim>\<open>parser.parse(commentedCode).program.body\<close>.\<close>

fun program_body :: "node \<Rightarrow> node list" where
  "program_body (Other file (Other program body # other)) = body"
| "program_body ast = []"

text \<open>
  What a cleanup visitor does with a selected node: \<open>Some ns\<close> replaces it by the nodes
  \<open>ns\<close> (\<open>Some []\<close> for \<^verbatim>\<open>path.remove()\<close>), \<open>None\<close> leaves it.
\<close>

definition cleanup_action ::
  "lib \<Rightarrow> cleanup_mode \<Rightarrow> string \<Rightarrow> node \<Rightarrow> js_error + node list option" where
  "cleanup_action L cleanupMode label n =
     (case cleanupMode of
        CleanupComment \<Rightarrow>
          (case parse_default L (commentedCode label (generate L n)) of
             Inl error \<Rightarrow> Inl error
           | Inr ast \<Rightarrow> Inr (Some (program_body ast)))
      | CleanupRemove \<Rightarrow> Inr (Some [])
      | CleanupNone \<Rightarrow> Inr None)"

definition function_cleanup_visitor ::
  "lib \<Rightarrow> cleanup_mode \<Rightarrow> string list \<Rightarrow> node \<Rightarrow> js_error + node list option" where
  "function_cleanup_visitor L cleanupMode names n =
     (case n of
        FunctionDeclaration fid params body \<Rightarrow>
          if truthy_name (id_name fid) \<and> the (id_name fid) \<in> set names
          then cleanup_action L cleanupMode (label_function @ the (id_name fid)) n
          else Inr None
      | VariableDeclarator vid init \<Rightarrow>
          (case init of
             Some (FunctionExpression fid params body) \<Rightarrow>
               if truthy_name (id_name (Some vid)) \<and>
                  the (id_name (Some vid)) \<in> set names
               then cleanup_action L cleanupMode
                      (label_function_expression @ the (id_name (Some vid))) n
               else Inr None
           | other \<Rightarrow> Inr None)
      | other \<Rightarrow> Inr None)"

definition immediate_cleanup_visitor ::
  "lib \<Rightarrow> cleanup_mode \<Rightarrow> string list \<Rightarrow> node \<Rightarrow> js_error + node list option" where
  "immediate_cleanup_visitor L cleanupMode keys n =
     (case n of
        ExpressionStatement (CallExpression (FunctionExpression fid params body) arguments) \<Rightarrow>
          if immediate_key L n \<in> set keys
          then cleanup_action L cleanupMode label_immediate n
          else Inr None
      | other \<Rightarrow> Inr None)"

text \<open>The protected block of the function, and the function with its handler.\<close>

definition cleanup_try :: "lib \<Rightarrow> string \<Rightarrow> cleanup_data \<Rightarrow> cleanup_mode \<Rightarrow> js_error + string" where
  "cleanup_try L code cleanupData cleanupMode =
     (case parse L code of
        Inl error \<Rightarrow> Inl error
      | Inr ast \<Rightarrow>
          (case splice L (function_cleanup_visitor L cleanupMode (functionsToCleanup cleanupData)) ast of
             Inl error \<Rightarrow> Inl error
           | Inr ast1 \<Rightarrow>
               if immediateFunctionsToCleanup cleanupData \<noteq> [] then
                 (case splice L
                         (immediate_cleanup_visitor L cleanupMode (immediateFunctionsToCleanup cleanupData))
                         ast1 of
                    Inl error \<Rightarrow> Inl error
                  | Inr ast2 \<Rightarrow> Inr (generate L ast2))
               else Inr (generate L ast1)))"

definition cleanupDecryptedFunctions ::
  "lib \<Rightarrow> string \<Rightarrow> cleanup_data \<Rightarrow> cleanup_mode \<Rightarrow> string" where
  "cleanupDecryptedFunctions L code cleanupData cleanupMode =
     (if (functionsToCleanup cleanupData = [] \<and> immediateFunctionsToCleanup cleanupData = []) \<or>
         cleanupMode = CleanupNone
      then code
      else (case cleanup_try L code cleanupData cleanupMode of
              Inl error \<Rightarrow> code
            | Inr newCode \<Rightarrow> newCode))"


text \<open>Whether the idiom occurs somewhere in a text.\<close>

fun occurs :: "string \<Rightarrow> bool" where
  "occurs [] = False"
| "occurs (c # cs) = (match_here (c # cs) \<noteq> None \<or> occurs cs)"

text \<open>A string literal followed by the idiom twice, and Scenario 3 of the specification.\<close>

definition twice_reversed :: string where
  "twice_reversed = [dq] @ ''ab'' @ [dq] @ idiom_tail @ idiom_tail"

definition scenario3_input :: string where
  "scenario3_input = ''var s = '' @ [dq] @ ''dlrow olleh'' @ [dq] @ idiom_tail @ '';''"

definition scenario3_output :: string where
  "scenario3_output = ''var s = '' @ [dq] @ ''hello world'' @ [dq] @ '';''"



text \<open>
  Whether an occurrence of the idiom starts at some position of the first \<open>t\<close> of the text
  \<open>t @ s\<close>.
\<close>

fun starts_within :: "string \<Rightarrow> string \<Rightarrow> bool" where
  "starts_within [] s = False"
| "starts_within (c # t) s = (match_here (c # t @ s) \<noteq> None \<or> starts_within t s)"

text \<open>
  A syntactic class of texts. The double quotes of a text are paired from left to right
  into string literals (a double quote opens a literal, the next one closes it; a last
  double quote without partner opens nothing). What stands directly behind a literal, or
  behind the idiom when the idiom directly follows the literal, is \<^emph>\<open>bad\<close> when it begins
  with a double quote or with \<^verbatim>\<open>.split(""\<close>. A text is \<open>tidy\<close> when nothing bad follows
  any of its literals. \<open>calm\<close> reads every literal without an idiom: in a calm text
  nothing bad, and so no idiom, follows a literal.
\<close>

definition follows_badly :: "string \<Rightarrow> bool" where
  "follows_badly s = (take 1 s = [dq] \<or> take 9 s = ''.split('' @ [dq, dq])"

function tidy :: "string \<Rightarrow> bool" where
  "tidy [] = True"
| "tidy (c # cs) =
     (if c \<noteq> dq then tidy cs
      else (case dropWhile (\<lambda>x. x \<noteq> dq) cs of
              [] \<Rightarrow> True
            | q # after \<Rightarrow>
                if take (length idiom_tail) after = idiom_tail
                then \<not> follows_badly (drop (length idiom_tail) after) \<and>
                     tidy (drop (length idiom_tail) after)
                else \<not> follows_badly after \<and> tidy after))"
  by pat_completeness auto
termination
proof (relation "measure length", goal_cases)
  case 1
  show ?case by simp
next
  case (2 c cs)
  then show ?case by simp
next
  case (3 c cs q after)
  from length_dropWhile_le [of "\<lambda>x. x \<noteq> dq" cs] 3 show ?case by simp
next
  case (4 c cs q after)
  from length_dropWhile_le [of "\<lambda>x. x \<noteq> dq" cs] 4 show ?case by simp
qed

function calm :: "string \<Rightarrow> bool" where
  "calm [] = True"
| "calm (c # cs) =
     (if c \<noteq> dq then calm cs
      else (case dropWhile (\<lambda>x. x \<noteq> dq) cs of
              [] \<Rightarrow> True
            | q # after \<Rightarrow> \<not> follows_badly after \<and> calm after))"
  by pat_completeness auto
termination
proof (relation "measure length", goal_cases)
  case 1
  show ?case by simp
next
  case (2 c cs)
  then show ?case by simp
next
  case (3 c cs q after)
  from length_dropWhile_le [of "\<lambda>x. x \<noteq> dq" cs] 3 show ?case by simp
qed

text \<open>A text with an ordinary string literal and two occurrences of the idiom.\<close>

definition normalizer_example :: string where
  "normalizer_example =
     ''var a = '' @ [dq] @ ''x'' @ [dq] @ ''; var s = '' @ [dq] @ ''dlrow olleh'' @ [dq] @
     idiom_tail @ ''; var t = '' @ [dq] @ ''cba'' @ [dq] @ idiom_tail @ '';''"

definition normalizer_example_output :: string where
  "normalizer_example_output =
     ''var a = '' @ [dq] @ ''x'' @ [dq] @ ''; var s = '' @ [dq] @ ''hello world'' @ [dq] @
     ''; var t = '' @ [dq] @ ''abc'' @ [dq] @ '';''"


section \<open>Example programs\<close>

abbreviation File :: "node \<Rightarrow> node" where
  "File program \<equiv> Other ''File'' [program]"
abbreviation Program :: "node list \<Rightarrow> node" where
  "Program body \<equiv> Other ''Program'' body"
abbreviation BlockStatement :: "node list \<Rightarrow> node" where
  "BlockStatement body \<equiv> Other ''BlockStatement'' body"
abbreviation ReturnStatement :: "node \<Rightarrow> node" where
  "ReturnStatement argument \<equiv> Other ''ReturnStatement'' [argument]"
abbreviation BinaryExpression :: "node \<Rightarrow> node \<Rightarrow> node" where
  "BinaryExpression left right \<equiv> Other ''BinaryExpression'' [left, right]"
abbreviation VariableDeclaration :: "node list \<Rightarrow> node" where
  "VariableDeclaration declarations \<equiv> Other ''VariableDeclaration'' declarations"

definition default_config :: config where
  "default_config =
     \<lparr>verbose = False, disableReplace = False, cleanupFunctions = CleanupNone,
      interceptPattern = (\<lambda>name. CHR ''f'' \<in> set name), functionNamePattern = None,
      minArgs = 4, maxArgs = 6\<rparr>"

definition example_lib :: "(string \<times> node) list \<Rightarrow> (node \<times> string) list \<Rightarrow> lib" where
  "example_lib sources texts =
     \<lparr>parse = (\<lambda>code. case map_of sources code of Some ast \<Rightarrow> Inr ast | None \<Rightarrow> Inl SyntaxError),
      parse_default = (\<lambda>code. Inr (File (Program []))),
      generate = (\<lambda>n. case map_of texts n of Some text \<Rightarrow> text | None \<Rightarrow> []),
      base64 = (\<lambda>s. s),
      unscoped_traverse = (\<lambda>n. Some Error),
      splice = (\<lambda>v n. Inl Error)\<rparr>"

definition call_f1_x :: node where
  "call_f1_x = CallExpression (Identifier ''f1'') [Identifier ''x'']"
definition call_f2_3 :: node where
  "call_f2_3 = CallExpression (Identifier ''f2'') [NumericLiteral 3]"
definition call_f2_10 :: node where
  "call_f2_10 = CallExpression (Identifier ''f2'') [NumericLiteral 10]"

definition scenario2_iife :: node where
  "scenario2_iife =
     CallExpression (FunctionExpression None [] (BlockStatement [ExpressionStatement call_f2_3])) []"

definition scenario2_ast :: node where
  "scenario2_ast = File (Program
     [FunctionDeclaration (Some (Identifier ''f1'')) [Identifier ''x'']
        (BlockStatement [ReturnStatement (BinaryExpression (Identifier ''x'') (NumericLiteral 2))]),
      FunctionDeclaration (Some (Identifier ''f2'')) [Identifier ''x'']
        (BlockStatement [ReturnStatement (BinaryExpression call_f1_x (NumericLiteral 1))]),
      ExpressionStatement scenario2_iife,
      VariableDeclaration [VariableDeclarator (Identifier ''y'') (Some call_f2_10)]])"

definition scenario2_lib :: lib where
  "scenario2_lib = example_lib []
     [(call_f1_x, ''f1(x)''), (call_f2_3, ''f2(3)''), (call_f2_10, ''f2(10)'')]"

definition scenario2_results :: results where
  "scenario2_results = [''f2(10)'' \<mapsto> VNumber 21, ''[object Object]'' \<mapsto> VNumber 21]"


definition call_obj_default :: node where
  "call_obj_default =
     CallExpression (MemberExpression (Identifier ''obj'') (Identifier ''default''))
       [NumericLiteral 1, NumericLiteral 2, NumericLiteral 3, NumericLiteral 4]"

definition scenario4_ast :: node where
  "scenario4_ast = File (Program [ExpressionStatement call_obj_default])"

definition scenario4_lib :: lib where
  "scenario4_lib = example_lib [(''obj.default(1, 2, 3, 4);'', scenario4_ast)]
     [(call_obj_default, ''obj.default(1, 2, 3, 4)''),
      (scenario4_ast, ''obj.default(1, 2, 3, 4);'')]"

definition scenario4_results :: results where
  "scenario4_results = [''obj.default(1, 2, 3, 4)'' \<mapsto> VNumber 10]"

definition twin_ast :: node where
  "twin_ast = File (Program
     [FunctionDeclaration (Some (Identifier ''f2'')) [Identifier ''x'']
        (BlockStatement [ReturnStatement (BinaryExpression (Identifier ''x'') (NumericLiteral 1))]),
      ExpressionStatement
        (CallExpression
           (FunctionExpression None [] (BlockStatement [ExpressionStatement call_f2_10])) []),
      VariableDeclaration [VariableDeclarator (Identifier ''y'') (Some call_f2_10)]])"

definition twin_inner_path :: path where
  "twin_inner_path =
     (call_f2_10,
      [ExpressionStatement call_f2_10,
       BlockStatement [ExpressionStatement call_f2_10],
       FunctionExpression None [] (BlockStatement [ExpressionStatement call_f2_10]),
       CallExpression
         (FunctionExpression None [] (BlockStatement [ExpressionStatement call_f2_10])) [],
       ExpressionStatement
         (CallExpression
            (FunctionExpression None [] (BlockStatement [ExpressionStatement call_f2_10])) []),
       Program
         [FunctionDeclaration (Some (Identifier ''f2'')) [Identifier ''x'']
            (BlockStatement [ReturnStatement (BinaryExpression (Identifier ''x'') (NumericLiteral 1))]),
          ExpressionStatement
            (CallExpression
               (FunctionExpression None [] (BlockStatement [ExpressionStatement call_f2_10])) []),
          VariableDeclaration [VariableDeclarator (Identifier ''y'') (Some call_f2_10)]]])"

definition twin_rewritten :: node where
  "twin_rewritten = File (Program
     [FunctionDeclaration (Some (Identifier ''f2'')) [Identifier ''x'']
        (BlockStatement [ReturnStatement (BinaryExpression (Identifier ''x'') (NumericLiteral 1))]),
      ExpressionStatement
        (CallExpression
           (FunctionExpression None []
              (BlockStatement [ExpressionStatement (NumericLiteral 11)])) []),
      VariableDeclaration [VariableDeclarator (Identifier ''y'') (Some (NumericLiteral 11))]])"

definition twin_results :: results where
  "twin_results = [''f2(10)'' \<mapsto> VNumber 11]"

definition scenario2_inner_path :: path where
  "scenario2_inner_path =
     (call_f2_3,
      [ExpressionStatement call_f2_3,
       BlockStatement [ExpressionStatement call_f2_3],
       FunctionExpression None [] (BlockStatement [ExpressionStatement call_f2_3]),
       scenario2_iife,
       ExpressionStatement scenario2_iife,
       Program (children (hd (children scenario2_ast)))])"

definition scenario2_rewritten :: node where
  "scenario2_rewritten = File (Program
     [FunctionDeclaration (Some (Identifier ''f1'')) [Identifier ''x'']
        (BlockStatement [ReturnStatement (BinaryExpression (Identifier ''x'') (NumericLiteral 2))]),
      FunctionDeclaration (Some (Identifier ''f2'')) [Identifier ''x'']
        (BlockStatement [ReturnStatement (BinaryExpression call_f1_x (NumericLiteral 1))]),
      ExpressionStatement scenario2_iife,
      VariableDeclaration [VariableDeclarator (Identifier ''y'') (Some (NumericLiteral 21))]])"

definition call_with_undefined :: node where
  "call_with_undefined =
     CallExpression (Identifier ''f123'')
       [NumericLiteral 1, NumericLiteral 2, NumericLiteral 3, Identifier ''undefined'']"

definition undefined_argument_ast :: node where
  "undefined_argument_ast = File (Program [ExpressionStatement call_with_undefined])"

text \<open>
  The Scenario 2 input as a text, the text printed for its rewritten tree, and a library
  that parses the one and prints the other.
\<close>

definition scenario2_source :: string where
  "scenario2_source =
     ''function f1(x){return x*2;} function f2(x){return f1(x)+1;} '' @
     ''(function(){ f2(3); })(); var y = f2(10);''"

definition scenario2_output :: string where
  "scenario2_output =
     ''function f1(x) { return x * 2; } function f2(x) { return f1(x) + 1; } '' @
     ''(function () { f2(3); })(); var y = 21;''"

definition scenario2_phase_lib :: lib where
  "scenario2_phase_lib =
     example_lib [(scenario2_source, scenario2_ast)]
       [(call_f1_x, ''f1(x)''), (call_f2_3, ''f2(3)''), (call_f2_10, ''f2(10)''),
        (scenario2_rewritten, scenario2_output)]"

definition scenario2_outer_path :: path where
  "scenario2_outer_path =
     (call_f2_10,
      [VariableDeclarator (Identifier ''y'') (Some call_f2_10),
       VariableDeclaration [VariableDeclarator (Identifier ''y'') (Some call_f2_10)],
       Program (children (hd (children scenario2_ast)))])"


definition call_f123_const :: node where
  "call_f123_const =
     CallExpression (Identifier ''f123'')
       [NumericLiteral 1, NumericLiteral 2, NumericLiteral 3, NumericLiteral 4]"

definition call_f123_k :: node where
  "call_f123_k =
     CallExpression (Identifier ''f123'')
       [NumericLiteral 1, NumericLiteral 2, NumericLiteral 3, Identifier ''k'']"

definition f123_declaration :: node where
  "f123_declaration =
     FunctionDeclaration (Some (Identifier ''f123''))
       [Identifier ''a'', Identifier ''b'', Identifier ''c'', Identifier ''d'']
       (BlockStatement
          [ReturnStatement
             (BinaryExpression
                (BinaryExpression
                   (BinaryExpression (Identifier ''a'') (Identifier ''b''))
                   (Identifier ''c''))
                (Identifier ''d''))])"

definition scenario6_ast :: node where
  "scenario6_ast = File (Program
     [f123_declaration,
      VariableDeclaration [VariableDeclarator (Identifier ''x'') (Some call_f123_const)],
      VariableDeclaration [VariableDeclarator (Identifier ''r'') (Some call_f123_k)]])"

definition scenario6_rewritten :: node where
  "scenario6_rewritten = File (Program
     [f123_declaration,
      VariableDeclaration [VariableDeclarator (Identifier ''x'') (Some (NumericLiteral 10))],
      VariableDeclaration [VariableDeclarator (Identifier ''r'') (Some call_f123_k)]])"

definition scenario6_source :: string where
  "scenario6_source =
     ''function f123(a,b,c,d){return a+b+c+d;} var x = f123(1,2,3,4); var r = f123(1,2,3,k);''"

definition scenario6_output :: string where
  "scenario6_output =
     ''function f123(a, b, c, d) { return a + b + c + d; } var x = 10; var r = f123(1, 2, 3, k);''"

definition scenario6_lib :: lib where
  "scenario6_lib =
     example_lib [(scenario6_source, scenario6_ast), (scenario6_output, scenario6_rewritten)]
       [(call_f123_const, ''f123(1, 2, 3, 4)''), (call_f123_k, ''f123(1, 2, 3, k)''),
        (scenario6_rewritten, scenario6_output)]"

definition scenario6_results :: results where
  "scenario6_results =
     [''[object Object]'' \<mapsto> VNumber 10, ''f123(1, 2, 3, 4)'' \<mapsto> VNumber 10]"

text \<open>
  Sandboxes for these inputs. Their helpers do not touch \<^verbatim>\<open>globalResults\<close>; the helper of
  the last one writes a key of its own on every call.
\<close>

definition adding_sandbox :: sandbox where
  "adding_sandbox =
     \<lparr>literal_value = (\<lambda>s. Some s), startup = StartupCompletes Map.empty,
      is_function = (\<lambda>i name. name = ''f123''),
      invoke = (\<lambda>i name arguments globalResults. (Returns (VNumber 10), globalResults))\<rparr>"

definition looping_sandbox :: sandbox where
  "looping_sandbox =
     \<lparr>literal_value = (\<lambda>s. Some s), startup = StartupCompletes Map.empty,
      is_function = (\<lambda>i name. name = ''f1''),
      invoke = (\<lambda>i name arguments globalResults. (Loops, globalResults))\<rparr>"

definition writing_sandbox :: sandbox where
  "writing_sandbox =
     \<lparr>literal_value = (\<lambda>s. Some s), startup = StartupCompletes Map.empty,
      is_function = (\<lambda>i name. name = ''f123''),
      invoke = (\<lambda>i name arguments globalResults.
                  (Returns (VNumber 10), globalResults(''seen'' \<mapsto> VBoolean True)))\<rparr>"

definition call_f1_const :: node where
  "call_f1_const =
     CallExpression (Identifier ''f1'')
       [NumericLiteral 1, NumericLiteral 2, NumericLiteral 3, NumericLiteral 4]"

definition looping_ast :: node where
  "looping_ast = File (Program
     [FunctionDeclaration (Some (Identifier ''f1''))
        [Identifier ''a'', Identifier ''b'', Identifier ''c'', Identifier ''d'']
        (BlockStatement [Other ''WhileStatement'' [BooleanLiteral True, BlockStatement []]]),
      VariableDeclaration [VariableDeclarator (Identifier ''x'') (Some call_f1_const)]])"

definition looping_lib :: lib where
  "looping_lib = example_lib [] [(call_f1_const, ''f1(1, 2, 3, 4)'')]"


definition permissive_lib :: lib where
  "permissive_lib = scenario2_lib\<lparr>parse := (\<lambda>code. Inr scenario2_rewritten),
                                   unscoped_traverse := (\<lambda>n. None)\<rparr>"

definition failing_parse_lib :: lib where
  "failing_parse_lib = example_lib [] []"

definition f123_dead :: cleanup_data where
  "f123_dead = \<lparr>functionsToCleanup = [''f123''], immediateFunctionsToCleanup = []\<rparr>"


definition late_failure_lib :: lib where
  "late_failure_lib =
     scenario2_lib\<lparr>parse := (\<lambda>code. Inr scenario2_rewritten),
                    splice := (\<lambda>v n. case v (ExpressionStatement scenario2_iife) of
                                        Inr None \<Rightarrow> Inr n
                                      | other \<Rightarrow> Inl Error)\<rparr>"

definition f1_and_block_dead :: cleanup_data where
  "f1_and_block_dead =
     \<lparr>functionsToCleanup = [''f1''], immediateFunctionsToCleanup = [''immediate_'']\<rparr>"


text \<open>
  The arguments the extractor captures as constants other than \<^verbatim>\<open>undefined\<close>: string,
  numeric, boolean and null literals, and the negation of a numeric literal.
\<close>

fun is_literal_argument :: "node \<Rightarrow> bool" where
  "is_literal_argument (StringLiteral v) = True"
| "is_literal_argument (NumericLiteral v) = True"
| "is_literal_argument (BooleanLiteral v) = True"
| "is_literal_argument NullLiteral = True"
| "is_literal_argument (UnaryExpression operator (NumericLiteral v)) = (operator = ''-'')"
| "is_literal_argument other = False"


section \<open>Properties of the literal normalizer\<close>

lemma replace_all_no_occurrence:
  "\<not> occurs s \<Longrightarrow> replace_all s = s"
proof (induction s)
  case Nil
  show ?case by simp
next
  case (Cons c cs)
  from Cons.prems have none: "match_here (c # cs) = None" and rest: "\<not> occurs cs"
    by (cases "match_here (c # cs)"; simp)+
  from Cons.IH [OF rest] none show ?case by simp
qed

lemma match_here_no_quote: "c \<noteq> dq \<Longrightarrow> match_here (c # cs) = None"
  by (simp add: match_here_def)

lemma drop_to_quote:
  "dq \<notin> set g \<Longrightarrow> dropWhile (\<lambda>x. x \<noteq> dq) (g @ dq # s) = dq # s"
  by (induction g) auto

lemma take_to_quote:
  "dq \<notin> set g \<Longrightarrow> takeWhile (\<lambda>x. x \<noteq> dq) (g @ dq # s) = g"
  by (induction g) auto

lemma replace_all_starts_quote: "\<exists>t. replace_all (dq # cs) = dq # t"
  by (cases "match_here (dq # cs)") auto

lemma first_quote_kept: "(take 1 (replace_all s) = [dq]) = (take 1 s = [dq])"
proof (cases s)
  case Nil
  then show ?thesis by simp
next
  case (Cons c cs)
  show ?thesis
  proof (cases "c = dq")
    case True
    from replace_all_starts_quote [of cs] obtain t where "replace_all (dq # cs) = dq # t" ..
    with True Cons show ?thesis by simp
  next
    case False
    with Cons show ?thesis by (simp add: match_here_no_quote)
  qed
qed

lemma two_quotes_kept: "(take 2 (replace_all s) = [dq, dq]) = (take 2 s = [dq, dq])"
proof (cases s)
  case Nil
  then show ?thesis by simp
next
  case (Cons c cs)
  show ?thesis
  proof (cases "c = dq")
    case False
    with Cons show ?thesis by (simp add: match_here_no_quote)
  next
    case True
    show ?thesis
    proof (cases "match_here (dq # cs)")
      case None
      from first_quote_kept [of cs] None True Cons show ?thesis
        by (cases cs; cases "replace_all cs") auto
    next
      case (Some m)
      obtain g rest where m: "m = (g, rest)" by (cases m)
      from Some m obtain q after where d: "dropWhile (\<lambda>x. x \<noteq> dq) cs = q # after"
        and g: "g = takeWhile (\<lambda>x. x \<noteq> dq) cs"
        by (auto simp: match_here_def split: list.splits if_splits)
      from hd_dropWhile [of "\<lambda>x. x \<noteq> dq" cs] d have q: "q = dq" by auto
      have cs: "cs = g @ dq # after"
        using takeWhile_dropWhile_id [of "\<lambda>x. x \<noteq> dq" cs] d g q by simp
      have free: "dq \<notin> set g"
        using g set_takeWhileD by fastforce
      from Some m True Cons have out: "replace_all s = dq # rev g @ dq # replace_all rest"
        by simp
      from free have "(take 1 (rev g @ dq # replace_all rest) = [dq]) = (g = [])"
        by (cases "rev g") auto
      moreover from free cs have "(take 1 cs = [dq]) = (g = [])"
        by (cases g) auto
      ultimately show ?thesis using out Cons True
        by (cases cs; cases "rev g @ dq # replace_all rest") auto
    qed
  qed
qed

lemma prefix_with_quotes_kept:
  "dq \<notin> set w \<Longrightarrow>
     (take (length w + 2) (replace_all s) = w @ [dq, dq]) = (take (length w + 2) s = w @ [dq, dq])"
proof (induction w arbitrary: s)
  case Nil
  from two_quotes_kept [of s] show ?case by (simp add: numeral_2_eq_2)
next
  case (Cons a w)
  show ?case
  proof (cases s)
    case Nil
    then show ?thesis by simp
  next
    case (Cons c cs)
    show ?thesis
    proof (cases "c = dq")
      case True
      from replace_all_starts_quote [of cs] obtain t where "replace_all (dq # cs) = dq # t" ..
      with True Cons Cons.prems show ?thesis by auto
    next
      case False
      from Cons.prems have "dq \<notin> set w" by simp
      from Cons.IH [OF this, of cs] False Cons show ?thesis
        by (simp add: match_here_no_quote)
    qed
  qed
qed

lemma follows_badly_kept: "follows_badly (replace_all s) = follows_badly s"
proof -
  have nine: "length ''.split('' + 2 = 9" by simp
  have "dq \<notin> set ''.split(''" by (simp add: dq_def)
  from prefix_with_quotes_kept [OF this, of s]
  have "(take 9 (replace_all s) = ''.split('' @ [dq, dq]) = (take 9 s = ''.split('' @ [dq, dq])"
    unfolding nine .
  with first_quote_kept [of s] show ?thesis
    unfolding follows_badly_def by blast
qed

lemma no_quote_no_occurrence: "dq \<notin> set g \<Longrightarrow> \<not> occurs g"
  by (induction g) (auto simp: match_here_no_quote)

lemma replace_all_copies: "dq \<notin> set g \<Longrightarrow> replace_all (g @ s) = g @ replace_all s"
  by (induction g) (auto simp: match_here_no_quote)

lemma occurs_skips: "dq \<notin> set g \<Longrightarrow> occurs (g @ s) = occurs s"
  by (induction g) (auto simp: match_here_no_quote)

lemma calm_skips: "dq \<notin> set g \<Longrightarrow> calm (g @ s) = calm s"
  by (induction g) auto

lemma tidy_skips: "dq \<notin> set g \<Longrightarrow> tidy (g @ s) = tidy s"
  by (induction g) auto

lemma split_at_quote:
  "dropWhile (\<lambda>x. x \<noteq> dq) cs = q # after \<Longrightarrow>
     q = dq \<and> cs = takeWhile (\<lambda>x. x \<noteq> dq) cs @ dq # after \<and>
     dq \<notin> set (takeWhile (\<lambda>x. x \<noteq> dq) cs)"
proof -
  assume d: "dropWhile (\<lambda>x. x \<noteq> dq) cs = q # after"
  from hd_dropWhile [of "\<lambda>x. x \<noteq> dq" cs] d have q: "q = dq" by auto
  have "cs = takeWhile (\<lambda>x. x \<noteq> dq) cs @ dropWhile (\<lambda>x. x \<noteq> dq) cs" by simp
  with d q have "cs = takeWhile (\<lambda>x. x \<noteq> dq) cs @ dq # after" by simp
  moreover have "dq \<notin> set (takeWhile (\<lambda>x. x \<noteq> dq) cs)"
    using set_takeWhileD by fastforce
  ultimately show ?thesis using q by simp
qed

lemma tail_then_quotes:
  "take (length idiom_tail) after = idiom_tail \<Longrightarrow>
     \<exists>x. dropWhile (\<lambda>x. x \<noteq> dq) after = dq # dq # x"
proof -
  assume "take (length idiom_tail) after = idiom_tail"
  then have "after = idiom_tail @ drop (length idiom_tail) after"
    by (metis append_take_drop_id)
  then obtain y where "after = idiom_tail @ y" ..
  then show ?thesis by (simp add: idiom_tail_def dq_def)
qed

lemma tail_starts_split:
  "take (length idiom_tail) after = idiom_tail \<Longrightarrow> take 9 after = ''.split('' @ [dq, dq]"
proof -
  assume "take (length idiom_tail) after = idiom_tail"
  then have "after = idiom_tail @ drop (length idiom_tail) after"
    by (metis append_take_drop_id)
  then obtain y where "after = idiom_tail @ y" ..
  then show ?thesis by (simp add: idiom_tail_def)
qed

lemma calm_no_cross_match: "calm s \<Longrightarrow> match_here (dq # s) = None"
proof (rule ccontr)
  assume calm: "calm s" and "match_here (dq # s) \<noteq> None"
  then obtain q after where d: "dropWhile (\<lambda>x. x \<noteq> dq) s = q # after"
    and t: "take (length idiom_tail) after = idiom_tail"
    by (auto simp: match_here_def split: list.splits if_splits)
  from split_at_quote [OF d] have s: "s = takeWhile (\<lambda>x. x \<noteq> dq) s @ dq # after"
    and free: "dq \<notin> set (takeWhile (\<lambda>x. x \<noteq> dq) s)" by simp_all
  from calm s calm_skips [OF free, of "dq # after"] have c: "calm (dq # after)" by simp
  from tail_then_quotes [OF t] obtain x where "dropWhile (\<lambda>x. x \<noteq> dq) after = dq # dq # x" ..
  with c show False by (simp add: follows_badly_def)
qed

lemma tidy_no_cross_match: "tidy s \<Longrightarrow> match_here (dq # s) = None"
proof (rule ccontr)
  assume tidy: "tidy s" and "match_here (dq # s) \<noteq> None"
  then obtain q after where d: "dropWhile (\<lambda>x. x \<noteq> dq) s = q # after"
    and t: "take (length idiom_tail) after = idiom_tail"
    by (auto simp: match_here_def split: list.splits if_splits)
  from split_at_quote [OF d] have s: "s = takeWhile (\<lambda>x. x \<noteq> dq) s @ dq # after"
    and free: "dq \<notin> set (takeWhile (\<lambda>x. x \<noteq> dq) s)" by simp_all
  from tidy s tidy_skips [OF free, of "dq # after"] have c: "tidy (dq # after)" by simp
  from tail_then_quotes [OF t] obtain x where x: "dropWhile (\<lambda>x. x \<noteq> dq) after = dq # dq # x" ..
  have "take (length idiom_tail) (dq # x) \<noteq> idiom_tail"
    by (simp add: idiom_tail_def dq_def)
  with c x show False by (simp add: follows_badly_def)
qed

lemma calm_no_occurrence: "calm T \<Longrightarrow> \<not> occurs T"
proof (induction T rule: calm.induct)
  case 1
  show ?case by simp
next
  case (2 c cs)
  show ?case
  proof (cases "c = dq")
    case False
    with "2.prems" have "calm cs" by simp
    from "2.IH"(1) [OF False this] False show ?thesis
      by (simp add: match_here_no_quote)
  next
    case True
    show ?thesis
    proof (cases "dropWhile (\<lambda>x. x \<noteq> dq) cs")
      case Nil
      then have free: "dq \<notin> set cs" by auto
      from Nil have "match_here (dq # cs) = None"
        by (simp add: match_here_def del: dropWhile_eq_Nil_conv)
      with no_quote_no_occurrence [OF free] True show ?thesis by simp
    next
      case d: (Cons q after)
      from "2.prems" True d have good: "\<not> follows_badly after" and calm: "calm after"
        by simp_all
      from split_at_quote [OF d] have cs: "cs = takeWhile (\<lambda>x. x \<noteq> dq) cs @ dq # after"
        and free: "dq \<notin> set (takeWhile (\<lambda>x. x \<noteq> dq) cs)" by simp_all
      have no_tail: "take (length idiom_tail) after \<noteq> idiom_tail"
        using good tail_starts_split [of after] by (auto simp: follows_badly_def)
      from d no_tail True have here: "match_here (c # cs) = None"
        by (simp add: match_here_def)
      from "2.IH"(2) [OF _ d calm] True have rest: "\<not> occurs after" by simp
      from occurs_skips [OF free, of "dq # after"] cs
      have "occurs cs = occurs (dq # after)" by simp
      also have "\<dots> = False"
        using calm_no_cross_match [OF calm] rest by simp
      finally show ?thesis using here by simp
    qed
  qed
qed

lemma tidy_becomes_calm: "tidy S \<Longrightarrow> calm (replace_all S)"
proof (induction S rule: tidy.induct)
  case 1
  show ?case by simp
next
  case (2 c cs)
  show ?case
  proof (cases "c = dq")
    case False
    with "2.prems" have "tidy cs" by simp
    from "2.IH"(1) [OF False this] False show ?thesis
      by (simp add: match_here_no_quote)
  next
    case True
    show ?thesis
    proof (cases "dropWhile (\<lambda>x. x \<noteq> dq) cs")
      case Nil
      then have free: "dq \<notin> set cs" by auto
      from replace_all_no_occurrence [OF no_quote_no_occurrence [OF free]]
      have same: "replace_all cs = cs" .
      from Nil have "match_here (dq # cs) = None"
        by (simp add: match_here_def del: dropWhile_eq_Nil_conv)
      with same True have out: "replace_all (c # cs) = dq # cs" by simp
      from Nil have "calm (dq # cs)" by (simp del: dropWhile_eq_Nil_conv)
      then show ?thesis unfolding out .
    next
    case d: (Cons q after)
    from split_at_quote [OF d] have cs: "cs = takeWhile (\<lambda>x. x \<noteq> dq) cs @ dq # after"
      and free: "dq \<notin> set (takeWhile (\<lambda>x. x \<noteq> dq) cs)" by simp_all
    let ?g = "takeWhile (\<lambda>x. x \<noteq> dq) cs"
    show ?thesis
    proof (cases "take (length idiom_tail) after = idiom_tail")
      case tail: True
      let ?rest = "drop (length idiom_tail) after"
      from "2.prems" True d tail have good: "\<not> follows_badly ?rest" and tidy: "tidy ?rest"
        by simp_all
      from "2.IH"(2) [OF _ d tail tidy] True have calm: "calm (replace_all ?rest)" by simp
      from True d tail have "match_here (c # cs) = Some (?g, ?rest)"
        by (simp add: match_here_def)
      then have out: "replace_all (c # cs) = dq # rev ?g @ dq # replace_all ?rest" by simp
      from free have "dropWhile (\<lambda>x. x \<noteq> dq) (rev ?g @ dq # replace_all ?rest)
          = dq # replace_all ?rest"
        by (simp add: drop_to_quote)
      with out calm good show ?thesis by (simp add: follows_badly_kept)
    next
      case no_tail: False
      from "2.prems" True d no_tail have good: "\<not> follows_badly after" and tidy: "tidy after"
        by simp_all
      from "2.IH"(3) [OF _ d no_tail tidy] True have calm: "calm (replace_all after)" by simp
      from True d no_tail have "match_here (c # cs) = None"
        by (simp add: match_here_def)
      then have "replace_all (c # cs) = dq # replace_all cs" using True by simp
      also have "replace_all cs = ?g @ replace_all (dq # after)"
        using replace_all_copies [OF free, of "dq # after"] cs by simp
      also have "replace_all (dq # after) = dq # replace_all after"
        using tidy_no_cross_match [OF tidy] by simp
      finally have out: "replace_all (c # cs) = dq # ?g @ dq # replace_all after" .
      from free have "dropWhile (\<lambda>x. x \<noteq> dq) (?g @ dq # replace_all after)
          = dq # replace_all after"
        by (simp add: drop_to_quote)
      with out calm good show ?thesis by (simp add: follows_badly_kept)
    qed
    qed
  qed
qed

lemma replace_all_tidy_fixed: "tidy S \<Longrightarrow> replace_all (replace_all S) = replace_all S"
  by (intro replace_all_no_occurrence calm_no_occurrence tidy_becomes_calm)

lemma match_here_idiom:
  "dq \<notin> set g \<Longrightarrow> match_here (dq # g @ dq # idiom_tail @ s) = Some (g, s)"
  by (simp add: match_here_def drop_to_quote take_to_quote)

lemma replace_all_outside:
  "\<not> starts_within t s \<Longrightarrow> replace_all (t @ s) = t @ replace_all s"
proof (induction t)
  case Nil
  show ?case by simp
next
  case (Cons c t)
  from Cons.prems have none: "match_here (c # t @ s) = None" and rest: "\<not> starts_within t s"
    by (cases "match_here (c # t @ s)"; simp)+
  from Cons.IH [OF rest] none show ?case by simp
qed

text \<open>
  Claim C7, as stated, fails: the normalizer is not idempotent. On
  \<^verbatim>\<open>"ab".split("").reverse().join("").split("").reverse().join("")\<close> the first pass
  yields \<^verbatim>\<open>"ba".split("").reverse().join("")\<close>, in which the replacement has created a
  new occurrence of the idiom; the second pass yields \<^verbatim>\<open>"ab"\<close>.
\<close>

theorem processStringReverse_not_idempotent:
  "processStringReverse (processStringReverse twice_reversed)
     \<noteq> processStringReverse twice_reversed"
  by (simp add: processStringReverse_def twice_reversed_def idiom_tail_def match_here_def dq_def)

text \<open>
  Claim C7, amended. The normalizer replaces every occurrence of the idiom that its single
  left-to-right scan finds and does not otherwise alter \<open>S\<close>: a text in which the idiom does
  not occur is returned unchanged; a double-quoted group \<open>g\<close> without double quote that is
  followed by the idiom is replaced by the reversed group in double quotes, and the scan
  continues right behind it; a stretch of text \<open>t\<close> in which no occurrence starts is copied
  unchanged, and the scan continues behind it. Applying the normalizer twice equals
  applying it once for every tidy text, that is, whenever no string literal of \<open>S\<close>
  (together with the idiom that follows it, if any) is directly followed by a double quote
  or by \<^verbatim>\<open>.split(""\<close>.
\<close>

theorem processStringReverse_single_scan:
  "(\<not> occurs S \<longrightarrow> processStringReverse S = S) \<and>
   (dq \<notin> set g \<longrightarrow>
      processStringReverse (dq # g @ dq # idiom_tail @ rest)
        = dq # rev g @ dq # processStringReverse rest) \<and>
   (\<not> starts_within t s \<longrightarrow>
      processStringReverse (t @ s) = t @ processStringReverse s) \<and>
   (tidy S \<longrightarrow>
      processStringReverse (processStringReverse S) = processStringReverse S)"
  unfolding processStringReverse_def
  using replace_all_no_occurrence [of S] match_here_idiom [of g rest]
    replace_all_outside [of t s] replace_all_tidy_fixed [of S]
  by simp

theorem processStringReverse_single_scan_witness:
  "\<not> occurs normalizer_example_output \<and>
   processStringReverse normalizer_example_output = normalizer_example_output \<and>
   dq \<notin> set ''cba'' \<and>
   processStringReverse (dq # ''cba'' @ dq # idiom_tail @ '';'')
     = dq # ''abc'' @ dq # processStringReverse '';'' \<and>
   \<not> starts_within (''var a = '' @ [dq] @ ''x'' @ [dq] @ ''; var s = '')
       ([dq] @ ''dlrow olleh'' @ [dq] @ idiom_tail @ '';'') \<and>
   processStringReverse
       ((''var a = '' @ [dq] @ ''x'' @ [dq] @ ''; var s = '') @
        ([dq] @ ''dlrow olleh'' @ [dq] @ idiom_tail @ '';''))
     = (''var a = '' @ [dq] @ ''x'' @ [dq] @ ''; var s = '') @
       processStringReverse ([dq] @ ''dlrow olleh'' @ [dq] @ idiom_tail @ '';'') \<and>
   tidy normalizer_example \<and>
   processStringReverse normalizer_example = normalizer_example_output \<and>
   processStringReverse (processStringReverse normalizer_example)
     = processStringReverse normalizer_example \<and>
   tidy scenario3_input \<and>
   processStringReverse scenario3_input = scenario3_output \<and>
   processStringReverse (processStringReverse scenario3_input)
     = processStringReverse scenario3_input"
proof -
  have settled: "\<not> occurs normalizer_example_output"
    by (simp add: normalizer_example_output_def idiom_tail_def match_here_def dq_def)
  from processStringReverse_single_scan [where S = normalizer_example_output] settled
  have fixed: "processStringReverse normalizer_example_output = normalizer_example_output"
    by blast
  have free: "dq \<notin> set ''cba''"
    by (simp add: dq_def)
  from processStringReverse_single_scan [where g = "''cba''" and rest = "'';''"] free
  have reversed: "processStringReverse (dq # ''cba'' @ dq # idiom_tail @ '';'')
      = dq # ''abc'' @ dq # processStringReverse '';''"
    by simp
  have outside: "\<not> starts_within (''var a = '' @ [dq] @ ''x'' @ [dq] @ ''; var s = '')
      ([dq] @ ''dlrow olleh'' @ [dq] @ idiom_tail @ '';'')"
    by (simp add: idiom_tail_def match_here_def dq_def)
  from processStringReverse_single_scan
    [where t = "''var a = '' @ [dq] @ ''x'' @ [dq] @ ''; var s = ''"
       and s = "[dq] @ ''dlrow olleh'' @ [dq] @ idiom_tail @ '';''"] outside
  have copied: "processStringReverse
       ((''var a = '' @ [dq] @ ''x'' @ [dq] @ ''; var s = '') @
        ([dq] @ ''dlrow olleh'' @ [dq] @ idiom_tail @ '';''))
     = (''var a = '' @ [dq] @ ''x'' @ [dq] @ ''; var s = '') @
       processStringReverse ([dq] @ ''dlrow olleh'' @ [dq] @ idiom_tail @ '';'')"
    by blast
  have tidy: "tidy normalizer_example"
    by (simp add: normalizer_example_def idiom_tail_def dq_def follows_badly_def)
  have out: "processStringReverse normalizer_example = normalizer_example_output"
    by (simp add: processStringReverse_def normalizer_example_def normalizer_example_output_def
        idiom_tail_def match_here_def dq_def)
  from processStringReverse_single_scan [where S = normalizer_example] tidy
  have once: "processStringReverse (processStringReverse normalizer_example)
      = processStringReverse normalizer_example"
    by blast
  have tidy3: "tidy scenario3_input"
    by (simp add: scenario3_input_def idiom_tail_def dq_def follows_badly_def)
  have out3: "processStringReverse scenario3_input = scenario3_output"
    by (simp add: processStringReverse_def scenario3_input_def scenario3_output_def
        idiom_tail_def match_here_def dq_def)
  from processStringReverse_single_scan [where S = scenario3_input] tidy3
  have once3: "processStringReverse (processStringReverse scenario3_input)
      = processStringReverse scenario3_input"
    by blast
  from settled fixed free reversed outside copied tidy out once tidy3 out3 once3
  show ?thesis by blast
qed


section \<open>Facts about traversal, extraction and rewriting\<close>

lemmas example_defs = default_config_def example_lib_def call_f1_x_def call_f2_3_def call_f2_10_def
  scenario2_iife_def scenario2_ast_def scenario2_lib_def scenario2_results_def

lemmas extract_defs = collectActualCalls_def traverse_def extract_visitor_def candidate_def
  isInitializationFunction_def shouldInterceptFunction_def extractConstantArguments_def
  object_Object_def

lemmas rewrite_defs = traverse_replace_def traverse_replaced_def replace_visitor_def
  shouldInterceptFunction_def literal_node_def

lemmas example2_defs = call_obj_default_def scenario4_ast_def scenario4_lib_def scenario4_results_def
  twin_ast_def twin_inner_path_def twin_rewritten_def twin_results_def scenario2_inner_path_def
  scenario2_rewritten_def call_with_undefined_def undefined_argument_ast_def

lemmas example4_defs = scenario2_source_def scenario2_output_def scenario2_phase_lib_def
  scenario2_outer_path_def

lemma replaced_paths_visited:
  "p \<in> set (replaced_paths v anc n) \<Longrightarrow> v (fst p) \<noteq> None"
proof (induction v anc n rule: replaced_paths.induct)
  case (1 v anc n)
  show ?case
  proof (cases "v n")
    case None
    with "1.prems" obtain c where c: "c \<in> set (children n)"
      and p: "p \<in> set (replaced_paths v (n # anc) c)"
      by auto
    from "1.IH" [OF None c p] show ?thesis .
  next
    case (Some r)
    with "1.prems" show ?thesis by simp
  qed
qed

lemma traverse_replaced_visited:
  "p \<in> set (traverse_replaced v ast) \<Longrightarrow> v (fst p) \<noteq> None"
  by (auto simp: traverse_replaced_def simp del: replaced_paths.simps dest: replaced_paths_visited)

lemma replace_visitor_Some:
  "replace_visitor L cfg R n = Some r \<Longrightarrow>
     \<exists>name arguments. n = CallExpression (Identifier name) arguments \<and>
        name \<noteq> ''__interceptFunctionCall'' \<and>
        shouldInterceptFunction cfg name (length arguments) \<and>
        (\<exists>result. R (generate L n) = Some result \<and> literal_node result = Some r)"
  by (auto simp: replace_visitor_def split: node.splits if_splits option.splits)

lemma candidate_entry:
  "e \<in> set (candidate cfg text p) \<Longrightarrow>
     path e = p \<and> callExpression e = text \<and> \<not> isInitializationFunction p \<and>
     (\<exists>callee arguments. fst p = CallExpression callee arguments \<and>
        truthy_name (extractFunctionName callee) \<and>
        funcName e = the (extractFunctionName callee) \<and>
        shouldInterceptFunction cfg (funcName e) (length arguments) \<and>
        args e = extractConstantArguments arguments \<and>
        list_all (\<lambda>a. a \<noteq> VUndefined) (args e))"
  by (cases "fst p") (auto simp: candidate_def split: if_splits)

lemma candidate_path:
  "e \<in> set (candidate cfg str p) \<Longrightarrow> e \<in> set (candidate cfg str (path e))"
  using candidate_entry [of e cfg str p] by simp

lemma extract_visitor_entry:
  "e \<in> set (extract_visitor L cfg p) \<Longrightarrow>
     \<exists>text. e \<in> set (candidate cfg text (path e))"
  by (cases "fst p") (auto simp: extract_visitor_def split: option.splits intro: candidate_path)

lemma collectActualCalls_entry:
  "e \<in> set (collectActualCalls L cfg ast) \<Longrightarrow>
     \<exists>text. e \<in> set (candidate cfg text (path e))"
  by (auto simp: collectActualCalls_def dest: extract_visitor_entry)


lemmas example3_defs = call_f123_const_def call_f123_k_def f123_declaration_def scenario6_ast_def
  scenario6_rewritten_def scenario6_source_def scenario6_output_def scenario6_lib_def
  scenario6_results_def adding_sandbox_def looping_sandbox_def writing_sandbox_def call_f1_const_def looping_ast_def
  looping_lib_def

lemmas harness_defs = run_test_code_def runInContext_def driver_key_def escape_quotes_def
  safeCall_def dq_def bs_def

lemmas analysis_defs = analyzeFunctionsForCleanup_def analysis_body_def exportedFunctions_def
  export_visitor_def count_references_def count_visitor_def register_function_def
  functions_to_cleanup_def add_name_def shouldCleanupImmediateFunctions_def immediate_key_def
  has_unreplaced_calls_def traverse_def


section \<open>Facts about the harness\<close>

text \<open>
  When the code run in the sandbox leaves \<^verbatim>\<open>globalResults\<close> alone, every key of the map
  the run returns is the value of the key literal of some driver line, that is, of the
  escaped \<open>callExpression\<close> of some entry of \<open>actualCalls\<close>. A helper that writes to the
  map can leave any key in it.
\<close>

lemma testActualCalls_keys:
  assumes quiet: "\<And>j name arguments g. snd (invoke sb j name arguments g) = g"
  shows "testActualCalls sb i lines R0 = Some R \<Longrightarrow> dom R \<subseteq> dom R0 \<union> fst ` set lines"
proof (induction lines arbitrary: i R0)
  case Nil
  then show ?case by simp
next
  case (Cons line lines)
  obtain callStr call where line: "line = (callStr, call)" by (cases line)
  show ?case
  proof (cases "is_function sb i (funcName call)")
    case False
    with Cons.prems line have "testActualCalls sb (Suc i) lines R0 = Some R" by simp
    from Cons.IH [OF this] line show ?thesis by auto
  next
    case True
    obtain outcome where run: "invoke sb i (funcName call) (args call) R0 = (outcome, R0)"
      using quiet [of i "funcName call" "args call" R0]
      by (cases "invoke sb i (funcName call) (args call) R0") simp
    show ?thesis
    proof (cases outcome)
      case (Returns result)
      with Cons.prems line True run
      have "testActualCalls sb (Suc i) lines (R0(callStr \<mapsto> result)) = Some R"
        by (simp add: safeCall_def)
      from Cons.IH [OF this] line show ?thesis by auto
    next
      case Throws
      with Cons.prems line True run have "testActualCalls sb (Suc i) lines R0 = Some R"
        by (simp add: safeCall_def)
      from Cons.IH [OF this] line show ?thesis by auto
    next
      case ThrowsNullish
      with Cons.prems line True run show ?thesis by (auto simp: safeCall_def)
    next
      case Loops
      with Cons.prems line True run show ?thesis by (simp add: safeCall_def)
    qed
  qed
qed

lemma run_test_code_keys:
  assumes quiet: "\<And>j name arguments g. snd (invoke sb j name arguments g) = g"
    and clean: "\<And>g. startup sb = StartupCompletes g \<Longrightarrow> g = Map.empty"
    and run: "run_test_code sb actualCalls = Some (Some R)"
    and k: "k \<in> dom R"
  shows "\<exists>call \<in> set actualCalls. driver_key sb call = Some k"
proof -
  from run have valid: "\<not> list_ex (\<lambda>call. driver_key sb call = None) actualCalls"
    by (auto simp: run_test_code_def runInContext_def split: if_splits)
  from run obtain g where g: "startup sb = StartupCompletes g"
    and test: "testActualCalls sb 0
      (map (\<lambda>call. (the (driver_key sb call), call)) actualCalls) g = Some R"
    by (auto simp: run_test_code_def runInContext_def
        split: if_splits startup_outcome.splits option.splits sum.splits)
  from clean [OF g] have "dom g = {}" by simp
  with testActualCalls_keys [OF quiet test] k
  obtain call where call: "call \<in> set actualCalls" and key: "k = the (driver_key sb call)"
    by auto
  from valid call have "driver_key sb call \<noteq> None"
    by (auto simp: list_ex_iff)
  with key call show ?thesis by auto
qed

lemma helper_can_write_any_key:
  "map_option (map_option (\<lambda>globalResults. globalResults ''seen''))
     (run_test_code writing_sandbox
        (collectActualCalls scenario6_lib default_config scenario6_ast))
     = Some (Some (Some (VBoolean True))) \<and>
   list_all (\<lambda>call. driver_key writing_sandbox call \<noteq> Some ''seen'')
     (collectActualCalls scenario6_lib default_config scenario6_ast)"
  by (simp add: example_defs example3_defs extract_defs harness_defs)


text \<open>
  A call outside every initializer context whose name passes \<open>shouldInterceptFunction\<close>
  is accepted exactly when all its arguments are such literals, and a traversal that
  replaces nothing returns the tree it was given.
\<close>

lemma constant_argument_literal:
  "is_literal_argument a \<longleftrightarrow> constant_argument a \<noteq> VUndefined"
  by (induction a rule: constant_argument.induct) auto

lemma literal_call_accepted:
  assumes "fst p = CallExpression callee arguments"
    and "truthy_name (extractFunctionName callee)"
    and "shouldInterceptFunction cfg (the (extractFunctionName callee)) (length arguments)"
    and "\<not> isInitializationFunction p"
  shows "candidate cfg str p =
     (if list_all is_literal_argument arguments
      then [\<lparr>callExpression = str, funcName = the (extractFunctionName callee),
              args = extractConstantArguments arguments, path = p\<rparr>]
      else [])"
proof -
  have "list_all (\<lambda>a. a \<noteq> VUndefined) (extractConstantArguments arguments)
      \<longleftrightarrow> list_all is_literal_argument arguments"
    by (simp add: extractConstantArguments_def list_all_iff constant_argument_literal)
  with assms show ?thesis
    by (simp add: candidate_def)
qed

lemma in_traverse_extracted:
  assumes "p \<in> set (traverse ast)"
    and "fst p = CallExpression callee arguments"
    and "truthy_name (extractFunctionName callee)"
    and "shouldInterceptFunction cfg (the (extractFunctionName callee)) (length arguments)"
    and "\<not> isInitializationFunction p"
    and "list_all is_literal_argument arguments"
  shows "\<exists>e \<in> set (collectActualCalls L cfg ast). path e = p \<and>
           callExpression e = generate L (fst p)"
proof -
  have "extract_visitor L cfg p = candidate cfg (generate L (fst p)) p"
    using assms(2) by (simp add: extract_visitor_def)
  with literal_call_accepted [OF assms(2-5), of "generate L (fst p)"] assms(6)
  have "\<lparr>callExpression = generate L (fst p), funcName = the (extractFunctionName callee),
          args = extractConstantArguments arguments, path = p\<rparr>
        \<in> set (extract_visitor L cfg p)"
    by simp
  with assms(1) show ?thesis
    unfolding collectActualCalls_def by force
qed

lemma map_children_id: "map_children (\<lambda>c. c) n = n"
  by (cases n) (auto simp: option.map_ident intro: map_idI)

lemma map_children_ident:
  "(\<And>c. c \<in> set (children n) \<Longrightarrow> f c = c) \<Longrightarrow> map_children f n = n"
  using map_children_cong [of n n f "\<lambda>c. c"] by (simp add: map_children_id)

lemma replace_nodes_unchanged:
  "replaced_paths v anc n = [] \<Longrightarrow> replace_nodes v n = n"
proof (induction v anc n rule: replaced_paths.induct)
  case (1 v anc n)
  show ?case
  proof (cases "v n")
    case (Some r)
    with "1.prems" show ?thesis by simp
  next
    case None
    have "\<And>c. c \<in> set (children n) \<Longrightarrow> replace_nodes v c = c"
    proof -
      fix c assume c: "c \<in> set (children n)"
      from "1.prems" None c have "replaced_paths v (n # anc) c = []" by auto
      from "1.IH" [OF None c this] show "replace_nodes v c = c" .
    qed
    then have "map_children (replace_nodes v) n = n" by (rule map_children_ident)
    with None show ?thesis by simp
  qed
qed

lemma traverse_replace_unchanged:
  "traverse_replaced v ast = [] \<Longrightarrow> traverse_replace v ast = ast"
  unfolding traverse_replaced_def traverse_replace_def
  by (rule map_children_ident) (auto simp del: replaced_paths.simps replace_nodes.simps
      intro: replace_nodes_unchanged)





section \<open>Which paths a replacing traversal replaces\<close>



declare subpaths.simps [simp del] replaced_paths.simps [simp del]



declare subpaths.simps [simp] replaced_paths.simps [simp]



section \<open>Properties of name resolution, extraction and rewriting\<close>

text \<open>
  Claim C6: a call whose callee is a member access with a property name from the reserved
  list resolves to no callee name; no entry of the pure call set is such a call (so the
  driver never evaluates it), and the rewriter neither replaces it when it visits it nor
  lists it among the replaced paths.
\<close>

theorem reserved_word_guard:
  "w \<in> set reservedKeywords \<Longrightarrow>
     extractFunctionName (MemberExpression obj (Identifier w)) = None \<and>
     (\<forall>e. e \<in> set (collectActualCalls L cfg ast) \<longrightarrow>
        fst (path e) \<noteq> CallExpression (MemberExpression obj (Identifier w)) arguments) \<and>
     replace_visitor L cfg R (CallExpression (MemberExpression obj (Identifier w)) arguments) = None \<and>
     (\<forall>p. p \<in> set (traverse_replaced (replace_visitor L cfg R) ast) \<longrightarrow>
        fst p \<noteq> CallExpression (MemberExpression obj (Identifier w)) arguments)"
proof (intro conjI allI impI)
  assume w: "w \<in> set reservedKeywords"
  then show name: "extractFunctionName (MemberExpression obj (Identifier w)) = None"
    by simp
  show visitor:
    "replace_visitor L cfg R (CallExpression (MemberExpression obj (Identifier w)) arguments) = None"
    by (simp add: replace_visitor_def)
  {
    fix e
    assume "e \<in> set (collectActualCalls L cfg ast)"
    then obtain str where "e \<in> set (candidate cfg str (path e))"
      using collectActualCalls_entry by blast
    from candidate_entry [OF this] obtain callee as where
      call: "fst (path e) = CallExpression callee as" and
      truthy: "truthy_name (extractFunctionName callee)"
      by blast
    show "fst (path e) \<noteq> CallExpression (MemberExpression obj (Identifier w)) arguments"
    proof
      assume "fst (path e) = CallExpression (MemberExpression obj (Identifier w)) arguments"
      with call have "callee = MemberExpression obj (Identifier w)" by simp
      with truthy name show False by simp
    qed
  }
  {
    fix p
    assume "p \<in> set (traverse_replaced (replace_visitor L cfg R) ast)"
    from traverse_replaced_visited [OF this] visitor
    show "fst p \<noteq> CallExpression (MemberExpression obj (Identifier w)) arguments"
      by auto
  }
qed

text \<open>
  Scenario 4: \<^verbatim>\<open>obj.default(1,2,3,4)\<close>, where \<^verbatim>\<open>default\<close> matches the default pattern.
  No call is extracted, none is replaced even with the call's text as a key of the result
  map, and the rewriter prints the unchanged tree: the output is the input.
\<close>

theorem reserved_word_guard_witness:
  "''default'' \<in> set reservedKeywords \<and>
   interceptPattern default_config ''default'' \<and>
   extractFunctionName (MemberExpression (Identifier ''obj'') (Identifier ''default'')) = None \<and>
   collectActualCalls scenario4_lib default_config scenario4_ast = [] \<and>
   traverse_replaced (replace_visitor scenario4_lib default_config scenario4_results) scenario4_ast = [] \<and>
   applyCallExpressionReplacements scenario4_lib default_config ''obj.default(1, 2, 3, 4);''
     scenario4_results = ''obj.default(1, 2, 3, 4);''"
proof -
  have member: "''default'' \<in> set reservedKeywords"
    by (simp add: reservedKeywords_def)
  from reserved_word_guard [OF member, of "Identifier ''obj''"]
  have name: "extractFunctionName (MemberExpression (Identifier ''obj'') (Identifier ''default'')) = None"
    by blast
  have pattern: "interceptPattern default_config ''default''"
    by (simp add: default_config_def)
  have calls: "collectActualCalls scenario4_lib default_config scenario4_ast = []"
    by (simp add: example_defs example2_defs extract_defs reservedKeywords_def)
  have paths: "traverse_replaced (replace_visitor scenario4_lib default_config scenario4_results)
      scenario4_ast = []"
    by (simp add: example_defs example2_defs rewrite_defs)
  have out: "applyCallExpressionReplacements scenario4_lib default_config ''obj.default(1, 2, 3, 4);''
     scenario4_results = ''obj.default(1, 2, 3, 4);''"
    by (simp add: applyCallExpressionReplacements_def replacement_try_def example_defs example2_defs
        rewrite_defs)
  from member pattern name calls paths out show ?thesis by blast
qed


text \<open>
  Claim C1, as stated, fails. In
  \<^verbatim>\<open>function f2(x){return x+1;} (function(){ f2(10); })(); var y = f2(10);\<close>
  the call outside the immediately-invoked function is extracted and evaluated, the result
  map holds the key \<^verbatim>\<open>f2(10)\<close>, and the rewriter, which looks a call up by its text,
  replaces the call inside the immediately-invoked function as well.
\<close>

theorem rewriter_replaces_call_in_initializer:
  "isInitializationFunction twin_inner_path \<and>
   twin_inner_path \<in> set (traverse_replaced
      (replace_visitor scenario2_lib default_config twin_results) twin_ast) \<and>
   traverse_replace (replace_visitor scenario2_lib default_config twin_results) twin_ast
     = twin_rewritten"
  by (simp add: example_defs example2_defs rewrite_defs isInitializationFunction_def)

text \<open>
  Claim C1, amended: no call located in an initializer context is extracted into the pure
  call set, and the rewriter replaces a call located in an initializer context only if the
  text of the call is a key of the result map. For the Scenario 2 input, with the result
  map that holds \<^verbatim>\<open>21\<close> under \<^verbatim>\<open>f2(10)\<close>: the call \<^verbatim>\<open>f2(3)\<close> inside the
  immediately-invoked function is visited and not replaced, and the call \<^verbatim>\<open>f2(10)\<close>
  outside it is rewritten to \<^verbatim>\<open>21\<close>.
\<close>

theorem initializer_call_rewritten_only_by_key:
  "(\<forall>e. e \<in> set (collectActualCalls L cfg ast) \<longrightarrow> \<not> isInitializationFunction (path e)) \<and>
   (\<forall>p. isInitializationFunction p \<and> R (generate L (fst p)) = None \<longrightarrow>
      p \<notin> set (traverse_replaced (replace_visitor L cfg R) ast)) \<and>
   parse scenario2_phase_lib scenario2_source = Inr scenario2_ast \<and>
   scenario2_results ''f2(10)'' = Some (VNumber 21) \<and>
   fst scenario2_inner_path = CallExpression (Identifier ''f2'') [NumericLiteral 3] \<and>
   isInitializationFunction scenario2_inner_path \<and>
   scenario2_inner_path \<in> set (traverse scenario2_ast) \<and>
   scenario2_inner_path \<notin> set (traverse_replaced
      (replace_visitor scenario2_phase_lib default_config scenario2_results) scenario2_ast) \<and>
   map fst (traverse_replaced
      (replace_visitor scenario2_phase_lib default_config scenario2_results) scenario2_ast)
     = [CallExpression (Identifier ''f2'') [NumericLiteral 10]] \<and>
   traverse_replace (replace_visitor scenario2_phase_lib default_config scenario2_results)
      scenario2_ast = scenario2_rewritten \<and>
   applyCallExpressionReplacements scenario2_phase_lib default_config scenario2_source
      scenario2_results = scenario2_output"
proof -
  have extracted: "\<forall>e. e \<in> set (collectActualCalls L cfg ast) \<longrightarrow>
      \<not> isInitializationFunction (path e)"
  proof (intro allI impI)
    fix e
    assume "e \<in> set (collectActualCalls L cfg ast)"
    then obtain str where "e \<in> set (candidate cfg str (path e))"
      using collectActualCalls_entry by blast
    from candidate_entry [OF this] show "\<not> isInitializationFunction (path e)"
      by blast
  qed
  have by_key: "\<forall>p. isInitializationFunction p \<and> R (generate L (fst p)) = None \<longrightarrow>
      p \<notin> set (traverse_replaced (replace_visitor L cfg R) ast)"
  proof (intro allI impI)
    fix p
    assume p: "isInitializationFunction p \<and> R (generate L (fst p)) = None"
    show "p \<notin> set (traverse_replaced (replace_visitor L cfg R) ast)"
    proof
      assume "p \<in> set (traverse_replaced (replace_visitor L cfg R) ast)"
      from traverse_replaced_visited [OF this]
      obtain r where "replace_visitor L cfg R (fst p) = Some r"
        by blast
      from replace_visitor_Some [OF this] p show False
        by auto
    qed
  qed
  have parsed: "parse scenario2_phase_lib scenario2_source = Inr scenario2_ast"
    by (simp add: scenario2_phase_lib_def example_lib_def)
  have key: "scenario2_results ''f2(10)'' = Some (VNumber 21)"
    by (simp add: scenario2_results_def)
  have node: "fst scenario2_inner_path = CallExpression (Identifier ''f2'') [NumericLiteral 3]"
    by (simp add: example_defs example2_defs)
  have init: "isInitializationFunction scenario2_inner_path"
    by (simp add: example_defs example2_defs isInitializationFunction_def)
  have visited: "scenario2_inner_path \<in> set (traverse scenario2_ast)"
    by (simp add: example_defs example2_defs traverse_def)
  have paths: "map fst (traverse_replaced
      (replace_visitor scenario2_phase_lib default_config scenario2_results) scenario2_ast)
     = [CallExpression (Identifier ''f2'') [NumericLiteral 10]]"
    by (simp add: example_defs example2_defs example4_defs rewrite_defs)
  have kept: "scenario2_inner_path \<notin> set (traverse_replaced
      (replace_visitor scenario2_phase_lib default_config scenario2_results) scenario2_ast)"
  proof
    assume "scenario2_inner_path \<in> set (traverse_replaced
      (replace_visitor scenario2_phase_lib default_config scenario2_results) scenario2_ast)"
    then have "fst scenario2_inner_path \<in> set (map fst (traverse_replaced
      (replace_visitor scenario2_phase_lib default_config scenario2_results) scenario2_ast))"
      by (simp del: replaced_paths.simps)
    with paths node show False by simp
  qed
  have tree: "traverse_replace (replace_visitor scenario2_phase_lib default_config scenario2_results)
      scenario2_ast = scenario2_rewritten"
    by (simp add: example_defs example2_defs example4_defs rewrite_defs)
  have printed: "generate scenario2_phase_lib scenario2_rewritten = scenario2_output"
    by (simp add: example_defs example2_defs example4_defs)
  have out: "applyCallExpressionReplacements scenario2_phase_lib default_config scenario2_source
      scenario2_results = scenario2_output"
    using parsed tree printed
    by (simp add: applyCallExpressionReplacements_def replacement_try_def default_config_def
        scenario2_results_def)
  show ?thesis
    by (intro conjI) (fact extracted by_key parsed key node init visited kept paths tree out)+
qed

text \<open>
  Scenario 2: \<^verbatim>\<open>f2(3)\<close> inside the immediately-invoked function is not replaced,
  \<^verbatim>\<open>f2(10)\<close> outside it becomes \<^verbatim>\<open>21\<close>.
\<close>

theorem initializer_call_rewritten_only_by_key_witness:
  "map callExpression (collectActualCalls scenario2_lib default_config scenario2_ast)
     = [''[object Object]'', ''f2(10)''] \<and>
   list_all (\<lambda>e. \<not> isInitializationFunction (path e))
     (collectActualCalls scenario2_lib default_config scenario2_ast) \<and>
   isInitializationFunction scenario2_inner_path \<and>
   scenario2_results (generate scenario2_lib (fst scenario2_inner_path)) = None \<and>
   scenario2_inner_path \<notin> set (traverse_replaced
      (replace_visitor scenario2_lib default_config scenario2_results) scenario2_ast) \<and>
   traverse_replace (replace_visitor scenario2_lib default_config scenario2_results)
      scenario2_ast = scenario2_rewritten"
proof -
  note main = initializer_call_rewritten_only_by_key
    [of scenario2_lib default_config scenario2_ast scenario2_results]
  have calls: "map callExpression (collectActualCalls scenario2_lib default_config scenario2_ast)
     = [''[object Object]'', ''f2(10)'']"
    by (simp add: example_defs extract_defs)
  from main have outside: "list_all (\<lambda>e. \<not> isInitializationFunction (path e))
     (collectActualCalls scenario2_lib default_config scenario2_ast)"
    by (simp add: list_all_iff)
  have init: "isInitializationFunction scenario2_inner_path"
    by (simp add: example_defs example2_defs isInitializationFunction_def)
  have key: "scenario2_results (generate scenario2_lib (fst scenario2_inner_path)) = None"
    by (simp add: example_defs example2_defs)
  from main init key
  have kept: "scenario2_inner_path \<notin> set (traverse_replaced
      (replace_visitor scenario2_lib default_config scenario2_results) scenario2_ast)"
    by blast
  have out: "traverse_replace (replace_visitor scenario2_lib default_config scenario2_results)
      scenario2_ast = scenario2_rewritten"
    by (simp add: example_defs example2_defs rewrite_defs)
  from calls outside init key kept out show ?thesis by blast
qed




text \<open>
  Claim C5 at the input \<^verbatim>\<open>f123(1, 2, 3, undefined);\<close>: the explicit \<^verbatim>\<open>undefined\<close>
  argument is captured as the value that also marks a non-constant argument, and the call,
  whose name passes \<open>shouldInterceptFunction\<close> and which lies in no initializer context,
  is not accepted into the pure call set.
\<close>

theorem undefined_argument_rejected:
  "extractConstantArguments
     [NumericLiteral 1, NumericLiteral 2, NumericLiteral 3, Identifier ''undefined'']
     = [VNumber 1, VNumber 2, VNumber 3, VUndefined] \<and>
   shouldInterceptFunction default_config ''f123'' 4 \<and>
   collectActualCalls L default_config undefined_argument_ast = []"
  by (simp add: example_defs example2_defs extract_defs)


section \<open>The code at the inputs where it departs from the specification\<close>

text \<open>
  Claim C8 at the input
  \<^verbatim>\<open>function f123(a,b,c,d){return a+b+c+d;} var x = f123(1,2,3,4); var r = f123(1,2,3,k);\<close>.
  The call \<^verbatim>\<open>f123(1,2,3,4)\<close> is pushed twice, by the \<^verbatim>\<open>VariableDeclarator\<close> visitor with
  the text \<^verbatim>\<open>[object Object]\<close> and by the \<^verbatim>\<open>CallExpression\<close> visitor with its printed
  form. Both entries print as \<^verbatim>\<open>f123(1, 2, 3, 4)\<close>, and the result map has the key
  \<^verbatim>\<open>[object Object]\<close>, which is the printed form of no call site.
\<close>

theorem result_key_not_printed_form:
  "map callExpression (collectActualCalls scenario6_lib default_config scenario6_ast)
     = [''[object Object]'', ''f123(1, 2, 3, 4)''] \<and>
   map (\<lambda>call. generate scenario6_lib (fst (path call)))
       (collectActualCalls scenario6_lib default_config scenario6_ast)
     = [''f123(1, 2, 3, 4)'', ''f123(1, 2, 3, 4)''] \<and>
   run_test_code adding_sandbox (collectActualCalls scenario6_lib default_config scenario6_ast)
     = Some (Some [''[object Object]'' \<mapsto> VNumber 10, ''f123(1, 2, 3, 4)'' \<mapsto> VNumber 10])"
  by (simp add: example_defs example3_defs extract_defs harness_defs)

text \<open>
  Claim C3 at the input
  \<^verbatim>\<open>function f1(a,b,c,d){while(true){}} var x = f1(1,2,3,4);\<close>, in a sandbox where the
  call of \<^verbatim>\<open>f1\<close> loops: the step that runs the assembled program does not return.
\<close>

theorem looping_helper_hangs:
  "map callExpression (collectActualCalls looping_lib default_config looping_ast)
     = [''[object Object]'', ''f1(1, 2, 3, 4)''] \<and>
   run_test_code looping_sandbox (collectActualCalls looping_lib default_config looping_ast) = None"
  by (simp add: example_defs example3_defs extract_defs harness_defs)

text \<open>
  Claim C2 at the Scenario 6 input with one more, constant call. After the rewrite the
  call \<^verbatim>\<open>f123(1,2,3,k)\<close> remains, the analyzer counts this one reference, compares it
  with the two entries of \<^verbatim>\<open>actualCalls\<close> for \<^verbatim>\<open>f123\<close>, and marks \<^verbatim>\<open>f123\<close> for
  cleanup.
\<close>

theorem helper_with_live_call_marked_dead:
  "traverse_replace (replace_visitor scenario6_lib default_config scenario6_results) scenario6_ast
     = scenario6_rewritten \<and>
   list_ex (\<lambda>p. fst p = call_f123_k) (traverse scenario6_rewritten) \<and>
   snd (count_references default_config scenario6_rewritten) ''f123'' = 1 \<and>
   length (collectActualCalls scenario6_lib default_config scenario6_ast) = 2 \<and>
   functionsToCleanup
     (analyzeFunctionsForCleanup scenario6_lib default_config scenario6_output scenario6_results
        (collectActualCalls scenario6_lib default_config scenario6_ast)) = [''f123'']"
  by (simp add: example_defs example3_defs extract_defs rewrite_defs analysis_defs)


section \<open>Properties of the cleanup analysis and of the handlers\<close>

text \<open>
  Claim C9: the protected block of \<open>analyzeFunctionsForCleanup\<close> always ends by throwing,
  so the body of the branch guarded by \<^verbatim>\<open>shouldCleanupImmediateFunctions\<close>, which comes
  after the guard, never runs, and the function returns the two sets as they were when the
  error was thrown. When the parse and the three traversals succeed, the error is the
  \<^verbatim>\<open>ReferenceError\<close> of the guard and the sets are those the loops computed.
\<close>

theorem dead_branch_never_runs:
  "(\<exists>error. analysis_body L cfg code R P
       = Inl (error, analyzeFunctionsForCleanup L cfg code R P)) \<and>
   (parse L code = Inr ast \<and> exportedFunctions ast = Inr exported \<and>
    immediate_analysis L cfg R (map fst (traverse ast)) [] = Inr found \<longrightarrow>
      analysis_body L cfg code R P =
        Inl (ReferenceError,
             \<lparr>functionsToCleanup =
                functions_to_cleanup (fst (count_references cfg ast)) exported
                  (snd (count_references cfg ast)) P,
              immediateFunctionsToCleanup = found\<rparr>))"
  by (auto simp: analysis_body_def analyzeFunctionsForCleanup_def
      shouldCleanupImmediateFunctions_def split: sum.splits prod.splits)

text \<open>
  On the rewritten program of Scenario 2, with a library whose unscoped traversal does not
  throw: the immediately-invoked function still contains the call \<^verbatim>\<open>f2(3)\<close>, the loop
  adds no key, the body of the branch would add one, and the function returns none.
\<close>

theorem dead_branch_never_runs_witness:
  "parse permissive_lib ''code'' = Inr scenario2_rewritten \<and>
   exportedFunctions scenario2_rewritten = Inr [] \<and>
   immediate_analysis permissive_lib default_config scenario2_results
     (map fst (traverse scenario2_rewritten)) [] = Inr [] \<and>
   cleanup_all_immediate permissive_lib (map fst (traverse scenario2_rewritten)) []
     = [''immediate_''] \<and>
   analysis_body permissive_lib default_config ''code'' scenario2_results [] =
     Inl (ReferenceError, \<lparr>functionsToCleanup = [], immediateFunctionsToCleanup = []\<rparr>) \<and>
   analyzeFunctionsForCleanup permissive_lib default_config ''code'' scenario2_results []
     = \<lparr>functionsToCleanup = [], immediateFunctionsToCleanup = []\<rparr>"
proof -
  have parsed: "parse permissive_lib ''code'' = Inr scenario2_rewritten"
    by (simp add: permissive_lib_def)
  have exported: "exportedFunctions scenario2_rewritten = Inr []"
    by (simp add: example_defs example2_defs exportedFunctions_def export_visitor_def traverse_def)
  have found: "immediate_analysis permissive_lib default_config scenario2_results
     (map fst (traverse scenario2_rewritten)) [] = Inr []"
    by (simp add: permissive_lib_def example_defs example2_defs traverse_def
        has_unreplaced_calls_def)
  have body: "cleanup_all_immediate permissive_lib (map fst (traverse scenario2_rewritten)) []
     = [''immediate_'']"
    by (simp add: permissive_lib_def example_defs example2_defs traverse_def
        immediate_key_def add_name_def)
  have fs: "functions_to_cleanup (fst (count_references default_config scenario2_rewritten)) []
      (snd (count_references default_config scenario2_rewritten)) [] = []"
    by (simp add: functions_to_cleanup_def)
  note main = dead_branch_never_runs
    [where L = permissive_lib and cfg = default_config and code = "''code''"
       and R = scenario2_results and P = "[]" and ast = scenario2_rewritten
       and exported = "[]" and found = "[]"]
  from main parsed exported found fs
  have thrown: "analysis_body permissive_lib default_config ''code'' scenario2_results [] =
     Inl (ReferenceError, \<lparr>functionsToCleanup = [], immediateFunctionsToCleanup = []\<rparr>)"
    by simp
  with main have "analyzeFunctionsForCleanup permissive_lib default_config ''code''
      scenario2_results [] = \<lparr>functionsToCleanup = [], immediateFunctionsToCleanup = []\<rparr>"
    by simp
  with parsed exported found body thrown show ?thesis by blast
qed

text \<open>
  Claim C10: a phase that fails returns its input. Preprocessing has nothing that throws
  and returns the normalized text. The replacement phase and the cleanup phase return
  \<open>code\<close> when the parser throws; the replacement phase otherwise returns \<open>code\<close> or
  the print of the completely rewritten tree; the cleanup phase returns \<open>code\<close> when
  either of its two traversals throws.
\<close>

theorem phases_return_input_on_failure:
  "preprocessCode code = processStringReverse code \<and>
   (parse L code = Inl e \<longrightarrow>
      applyCallExpressionReplacements L cfg code R = code \<and>
      cleanupDecryptedFunctions L code cleanupData cleanupMode = code) \<and>
   (parse L code = Inr ast \<longrightarrow>
      applyCallExpressionReplacements L cfg code R = code \<or>
      applyCallExpressionReplacements L cfg code R
        = generate L (traverse_replace (replace_visitor L cfg R) ast)) \<and>
   (parse L code = Inr ast \<and>
    splice L (function_cleanup_visitor L cleanupMode (functionsToCleanup cleanupData)) ast
      = Inl e \<longrightarrow>
      cleanupDecryptedFunctions L code cleanupData cleanupMode = code) \<and>
   (parse L code = Inr ast \<and>
    splice L (function_cleanup_visitor L cleanupMode (functionsToCleanup cleanupData)) ast
      = Inr ast' \<and>
    immediateFunctionsToCleanup cleanupData \<noteq> [] \<and>
    splice L (immediate_cleanup_visitor L cleanupMode (immediateFunctionsToCleanup cleanupData))
      ast' = Inl e \<longrightarrow>
      cleanupDecryptedFunctions L code cleanupData cleanupMode = code)"
  by (simp add: preprocessCode_def preprocess_try_def applyCallExpressionReplacements_def
      replacement_try_def cleanupDecryptedFunctions_def cleanup_try_def)

text \<open>
  A text the parser rejects; the program of Scenario 6, which the replacement phase
  rewrites completely, and whose rewritten form a library with a throwing removal leaves
  as it is; and a library whose second cleanup traversal throws.
\<close>

theorem phases_return_input_on_failure_witness:
  "parse failing_parse_lib ''var x = f123(1,2,3,4'' = Inl SyntaxError \<and>
   applyCallExpressionReplacements failing_parse_lib default_config ''var x = f123(1,2,3,4''
     scenario6_results = ''var x = f123(1,2,3,4'' \<and>
   cleanupDecryptedFunctions failing_parse_lib ''var x = f123(1,2,3,4'' f123_dead CleanupRemove
     = ''var x = f123(1,2,3,4'' \<and>
   parse scenario6_lib scenario6_source = Inr scenario6_ast \<and>
   applyCallExpressionReplacements scenario6_lib default_config scenario6_source
     scenario6_results = scenario6_output \<and>
   parse scenario6_lib scenario6_output = Inr scenario6_rewritten \<and>
   splice scenario6_lib
     (function_cleanup_visitor scenario6_lib CleanupRemove (functionsToCleanup f123_dead))
     scenario6_rewritten = Inl Error \<and>
   cleanupDecryptedFunctions scenario6_lib scenario6_output f123_dead CleanupRemove
     = scenario6_output \<and>
   splice late_failure_lib
     (function_cleanup_visitor late_failure_lib CleanupRemove
        (functionsToCleanup f1_and_block_dead))
     scenario2_rewritten = Inr scenario2_rewritten \<and>
   splice late_failure_lib
     (immediate_cleanup_visitor late_failure_lib CleanupRemove
        (immediateFunctionsToCleanup f1_and_block_dead))
     scenario2_rewritten = Inl Error \<and>
   cleanupDecryptedFunctions late_failure_lib ''code'' f1_and_block_dead CleanupRemove = ''code''"
proof -
  have failed: "parse failing_parse_lib ''var x = f123(1,2,3,4'' = Inl SyntaxError"
    by (simp add: failing_parse_lib_def example_lib_def)
  note first = phases_return_input_on_failure
    [where L = failing_parse_lib and code = "''var x = f123(1,2,3,4''" and e = SyntaxError
       and cfg = default_config and R = scenario6_results and cleanupData = f123_dead
       and cleanupMode = CleanupRemove]
  from first failed
  have a: "applyCallExpressionReplacements failing_parse_lib default_config
      ''var x = f123(1,2,3,4'' scenario6_results = ''var x = f123(1,2,3,4''"
    and b: "cleanupDecryptedFunctions failing_parse_lib ''var x = f123(1,2,3,4'' f123_dead
      CleanupRemove = ''var x = f123(1,2,3,4''"
    by blast+
  have parsed0: "parse scenario6_lib scenario6_source = Inr scenario6_ast"
    by (simp add: example_defs example3_defs)
  have rewritten: "generate scenario6_lib
      (traverse_replace (replace_visitor scenario6_lib default_config scenario6_results)
         scenario6_ast) = scenario6_output"
    by (simp add: example_defs example3_defs rewrite_defs)
  have changed: "scenario6_output \<noteq> scenario6_source"
    by (simp add: example3_defs)
  have nonempty: "scenario6_results \<noteq> Map.empty" "\<not> disableReplace default_config"
    by (simp_all add: scenario6_results_def default_config_def)
  have d: "applyCallExpressionReplacements scenario6_lib default_config scenario6_source
     scenario6_results = scenario6_output"
    using parsed0 rewritten nonempty
    by (simp add: applyCallExpressionReplacements_def replacement_try_def)
  note third = phases_return_input_on_failure
    [where L = scenario6_lib and code = scenario6_source and cfg = default_config
       and R = scenario6_results and ast = scenario6_ast]
  from third parsed0 rewritten
  have "applyCallExpressionReplacements scenario6_lib default_config scenario6_source
     scenario6_results \<in> {scenario6_source, scenario6_output}"
    by auto
  have parsed: "parse scenario6_lib scenario6_output = Inr scenario6_rewritten"
    by (simp add: example_defs example3_defs)
  have thrown: "splice scenario6_lib
     (function_cleanup_visitor scenario6_lib CleanupRemove (functionsToCleanup f123_dead))
     scenario6_rewritten = Inl Error"
    by (simp add: scenario6_lib_def example_lib_def)
  note second = phases_return_input_on_failure
    [where L = scenario6_lib and code = scenario6_output and e = Error
       and ast = scenario6_rewritten and cleanupData = f123_dead
       and cleanupMode = CleanupRemove]
  from second parsed thrown
  have c: "cleanupDecryptedFunctions scenario6_lib scenario6_output f123_dead CleanupRemove
     = scenario6_output"
    by blast
  have parsed2: "parse late_failure_lib ''code'' = Inr scenario2_rewritten"
    by (simp add: late_failure_lib_def)
  have ok1: "splice late_failure_lib
     (function_cleanup_visitor late_failure_lib CleanupRemove
        (functionsToCleanup f1_and_block_dead))
     scenario2_rewritten = Inr scenario2_rewritten"
    by (simp add: late_failure_lib_def f1_and_block_dead_def function_cleanup_visitor_def)
  have keys: "immediateFunctionsToCleanup f1_and_block_dead \<noteq> []"
    by (simp add: f1_and_block_dead_def)
  have thrown2: "splice late_failure_lib
     (immediate_cleanup_visitor late_failure_lib CleanupRemove
        (immediateFunctionsToCleanup f1_and_block_dead))
     scenario2_rewritten = Inl Error"
    by (simp add: late_failure_lib_def f1_and_block_dead_def immediate_cleanup_visitor_def
        immediate_key_def cleanup_action_def example_defs)
  note fourth = phases_return_input_on_failure
    [where L = late_failure_lib and code = "''code''" and e = Error
       and ast = scenario2_rewritten and ast' = scenario2_rewritten
       and cleanupData = f1_and_block_dead and cleanupMode = CleanupRemove]
  from fourth parsed2 ok1 keys thrown2
  have f: "cleanupDecryptedFunctions late_failure_lib ''code'' f1_and_block_dead CleanupRemove
     = ''code''"
    by blast
  from failed a b parsed0 d parsed thrown c ok1 thrown2 f show ?thesis by blast
qed

end
